theory Spec2Isabelle
  imports Main "HOL-Library.Char_ord" "HOL-Library.List_Lexorder"
begin

section \<open>Live scoreboard (problem6): data model\<close>

text \<open>
  The embedding follows \<^verbatim>\<open>database.ts\<close>, \<^verbatim>\<open>cache.ts\<close>, \<^verbatim>\<open>leaderboard.ts\<close>,
  \<^verbatim>\<open>routes.ts\<close> and \<^verbatim>\<open>app.ts\<close> of problem6.

  \<^item> SQLite \<^verbatim>\<open>INTEGER\<close> columns and the JavaScript numbers read from them are \<open>int\<close>
    (sums stay far below \<open>2^53\<close>, where a double is exact).
  \<^item> \<^verbatim>\<open>new Date().toISOString()\<close> yields fixed-width UTC strings whose lexicographic
    order is the chronological one; an instant is a \<open>nat\<close>, and SQL \<^verbatim>\<open>MAX(timestamp)\<close>
    is the maximum of the instants.
  \<^item> \<^verbatim>\<open>uuidv4()\<close> and the clock are inputs of the environment (\<open>env\<close>).
  \<^item> A promise that rejects (a thrown \<^verbatim>\<open>Error\<close>) is \<open>Inl e\<close>; the state reached when it
    rejects is returned with it, since nothing in the source rolls anything back.
\<close>

type_synonym instant = nat

record user_row =
  u_id :: string
  u_username :: string
  u_email :: string
  u_createdAt :: instant

record score_history_row =
  sh_id :: string
  sh_user_id :: string
  sh_action_type :: string
  sh_score_increase :: int
  sh_timestamp :: instant

record action_row =
  act_id :: string
  act_action_type :: string
  act_score_value :: int
  act_created_at :: instant

record idempotency_row =
  idem_action_id :: string
  idem_user_id :: string
  idem_timestamp :: instant

text \<open>
  The four tables of \<^verbatim>\<open>createTables\<close>, each with its rows in the order of insertion.
  \<open>faults\<close> is the schedule of the store's next answers: the head says whether the next
  statement's callback receives \<^verbatim>\<open>err\<close> (\<open>True\<close>); an empty schedule is a healthy store.
  Foreign keys are declared but never switched on (\<^verbatim>\<open>PRAGMA foreign_keys\<close> is not
  issued), so they reject nothing.
\<close>

record database =
  users :: "user_row list"
  score_history :: "score_history_row list"
  actions :: "action_row list"
  idempotency :: "idempotency_row list"
  faults :: "bool list"

datatype error =
    SqliteError
  | SqliteConstraint
  | InvalidActionType string
  | RedisNotConnected
  | RedisError

type_synonym ('a, 's) promise = "'s \<Rightarrow> (error + 'a) \<times> 's"

definition resolve :: "'a \<Rightarrow> ('a, 's) promise" where
  "resolve x s = (Inr x, s)"

definition throw :: "error \<Rightarrow> ('a, 's) promise" where
  "throw e s = (Inl e, s)"

definition await :: "('a, 's) promise \<Rightarrow> ('a \<Rightarrow> ('b, 's) promise) \<Rightarrow> ('b, 's) promise" where
  "await m k s = (case m s of (Inl e, s') \<Rightarrow> (Inl e, s') | (Inr x, s') \<Rightarrow> k x s')"

section \<open>database.ts\<close>

text \<open>One statement sent to SQLite: the schedule decides whether it comes back with \<^verbatim>\<open>err\<close>.\<close>

definition db_statement :: "(database \<Rightarrow> (error + 'a) \<times> database) \<Rightarrow> ('a, database) promise" where
  "db_statement run d =
     (case faults d of
        [] \<Rightarrow> run d
      | failing # rest \<Rightarrow>
          if failing then (Inl SqliteError, d\<lparr>faults := rest\<rparr>)
          else run (d\<lparr>faults := rest\<rparr>))"

text \<open>\<^verbatim>\<open>SELECT * FROM users WHERE id = ?\<close>, resolved as \<^verbatim>\<open>row || null\<close>.\<close>

definition select_user :: "database \<Rightarrow> string \<Rightarrow> user_row option" where
  "select_user d ident = find (\<lambda>u. u_id u = ident) (users d)"

definition getUserById :: "string \<Rightarrow> (user_row option, database) promise" where
  "getUserById ident = db_statement (\<lambda>d. (Inr (select_user d ident), d))"

text \<open>\<^verbatim>\<open>INSERT INTO score_history\<close>; \<^verbatim>\<open>id\<close> is the primary key.\<close>

definition insert_score_history :: "score_history_row \<Rightarrow> database \<Rightarrow> database" where
  "insert_score_history row d = d\<lparr>score_history := score_history d @ [row]\<rparr>"

definition addScoreHistory :: "score_history_row \<Rightarrow> (score_history_row, database) promise" where
  "addScoreHistory scoreHistory =
     db_statement (\<lambda>d.
       if sh_id scoreHistory \<in> set (map sh_id (score_history d)) then (Inl SqliteConstraint, d)
       else (Inr scoreHistory, insert_score_history scoreHistory d))"

text \<open>\<^verbatim>\<open>SELECT COALESCE(SUM(score_increase), 0) FROM score_history WHERE user_id = ?\<close>.\<close>

definition sum_score_increase :: "database \<Rightarrow> string \<Rightarrow> int" where
  "sum_score_increase d userId =
     sum_list (map sh_score_increase (filter (\<lambda>r. sh_user_id r = userId) (score_history d)))"

text \<open>\<^verbatim>\<open>resolve(row.total_score || 0)\<close>: a total of 0 is falsy and is replaced by 0.\<close>

definition getTotalScore :: "string \<Rightarrow> (int, database) promise" where
  "getTotalScore userId =
     db_statement (\<lambda>d.
       let total_score = sum_score_increase d userId
       in (Inr (if total_score = 0 then 0 else total_score), d))"

record user_with_score =
  uws_id :: string
  uws_username :: string
  uws_totalScore :: int
  uws_lastUpdated :: "instant option"

text \<open>\<^verbatim>\<open>MAX(sh.timestamp)\<close> over the joined rows: \<^verbatim>\<open>NULL\<close> when the user has none.\<close>

definition max_timestamp :: "score_history_row list \<Rightarrow> instant option" where
  "max_timestamp rows =
     (case rows of [] \<Rightarrow> None | r # rs \<Rightarrow> Some (fold max (map sh_timestamp rs) (sh_timestamp r)))"

text \<open>
  \<^verbatim>\<open>FROM users u LEFT JOIN score_history sh ON u.id = sh.user_id GROUP BY u.id, u.username\<close>:
  \<^verbatim>\<open>users.id\<close> is the primary key, so every row of \<open>users\<close> is a group of its own.
  SQLite reads \<open>users\<close> for this query through the index of the \<^verbatim>\<open>UNIQUE\<close> constraint on
  \<^verbatim>\<open>username\<close> (\<^verbatim>\<open>SCAN u USING INDEX sqlite_autoindex_users_2\<close>), so the groups are produced in
  ascending order of \<^verbatim>\<open>username\<close>, whatever the order in which the rows were inserted. The
  column has the \<^verbatim>\<open>BINARY\<close> collation: names are compared byte by byte, which on \<open>string\<close>
  is the lexicographic order of the character codes.
\<close>

definition scan_users :: "database \<Rightarrow> user_row list" where
  "scan_users d = sort_key u_username (users d)"

definition grouped_user :: "database \<Rightarrow> user_row \<Rightarrow> user_with_score" where
  "grouped_user d u =
     \<lparr>uws_id = u_id u, uws_username = u_username u,
      uws_totalScore = sum_score_increase d (u_id u),
      uws_lastUpdated = max_timestamp (filter (\<lambda>r. sh_user_id r = u_id u) (score_history d))\<rparr>"

text \<open>
  \<^verbatim>\<open>ORDER BY totalScore DESC\<close> is the only sort key of the query. SQL leaves the order of
  rows with equal totals to the engine: SQLite's sorter keeps them in the order in which the
  groups were produced (a stable sort on the negated total), which is the ascending order of
  \<^verbatim>\<open>username\<close> of \<open>scan_users\<close>. Nothing in the query orders by time.
\<close>

definition order_by_totalScore_desc :: "user_with_score list \<Rightarrow> user_with_score list" where
  "order_by_totalScore_desc rows = sort_key (\<lambda>r. - uws_totalScore r) rows"

definition getAllUsersWithScores :: "(user_with_score list, database) promise" where
  "getAllUsersWithScores =
     db_statement (\<lambda>d. (Inr (order_by_totalScore_desc (map (grouped_user d) (scan_users d))), d))"

text \<open>
  \<^verbatim>\<open>INSERT INTO idempotency\<close>; \<^verbatim>\<open>action_id\<close> is the primary key. The row's timestamp is the
  clock's value when the statement is built.
\<close>

definition insert_idempotency :: "idempotency_row \<Rightarrow> database \<Rightarrow> database" where
  "insert_idempotency row d = d\<lparr>idempotency := idempotency d @ [row]\<rparr>"

definition recordAction :: "string \<Rightarrow> string \<Rightarrow> instant \<Rightarrow> (unit, database) promise" where
  "recordAction actionId userId now =
     db_statement (\<lambda>d.
       if actionId \<in> set (map idem_action_id (idempotency d)) then (Inl SqliteConstraint, d)
       else (Inr (),
             insert_idempotency
               \<lparr>idem_action_id = actionId, idem_user_id = userId, idem_timestamp = now\<rparr> d))"

text \<open>\<^verbatim>\<open>SELECT action_id FROM idempotency WHERE action_id = ?\<close>, resolved as \<^verbatim>\<open>!!row\<close>.\<close>

definition select_idempotency :: "database \<Rightarrow> string \<Rightarrow> idempotency_row option" where
  "select_idempotency d actionId = find (\<lambda>r. idem_action_id r = actionId) (idempotency d)"

definition isActionProcessed :: "string \<Rightarrow> (bool, database) promise" where
  "isActionProcessed actionId =
     db_statement (\<lambda>d. (Inr (select_idempotency d actionId \<noteq> None), d))"

text \<open>
  \<^verbatim>\<open>SELECT score_value FROM actions WHERE action_type = ?\<close>, resolved as
  \<^verbatim>\<open>row?.score_value || null\<close>: \<open>None\<close> is \<^verbatim>\<open>null\<close>, which a missing row and a stored 0
  both give.
\<close>

definition select_action :: "database \<Rightarrow> string \<Rightarrow> action_row option" where
  "select_action d actionType = find (\<lambda>a. act_action_type a = actionType) (actions d)"

definition getActionScoreValue :: "string \<Rightarrow> (int option, database) promise" where
  "getActionScoreValue actionType =
     db_statement (\<lambda>d.
       (Inr (case select_action d actionType of
               None \<Rightarrow> None
             | Some row \<Rightarrow> if act_score_value row = 0 then None else Some (act_score_value row)),
        d))"

section \<open>cache.ts\<close>

text \<open>
  A member of the sorted set \<^verbatim>\<open>leaderboard:top10\<close> is \<^verbatim>\<open>JSON.stringify\<close> of
  \<^verbatim>\<open>{userId, username, score}\<close>; the record stands for that string, \<^verbatim>\<open>JSON.parse\<close> gives it
  back.
\<close>

record top10_member =
  m_userId :: string
  m_username :: string
  m_score :: int

text \<open>
  The Redis server as the service sees it: whether commands reach it, the sorted set under
  \<^verbatim>\<open>TOP10_KEY\<close> as (score, member) pairs (no pair: the key does not exist) and the key's
  time to live in seconds.
\<close>

record redis =
  reachable :: bool
  top10_key :: "(int \<times> top10_member) list"
  top10_ttl :: "nat option"

text \<open>\<^verbatim>\<open>private client: RedisClientType | null\<close>.\<close>

record CacheService =
  client :: "redis option"

definition TTL :: nat where
  "TTL = 300"

record Top10Entry =
  e_rank :: nat
  e_userId :: string
  e_username :: string
  e_score :: int
  e_lastUpdated :: "instant option"

text \<open>One command on the client: it throws when there is no client or the server is away.\<close>

definition redis_command :: "(redis \<Rightarrow> 'a \<times> redis) \<Rightarrow> ('a, CacheService) promise" where
  "redis_command run c =
     (case client c of
        None \<Rightarrow> (Inl RedisNotConnected, c)
      | Some r \<Rightarrow>
          if reachable r then (case run r of (x, r') \<Rightarrow> (Inr x, c\<lparr>client := Some r'\<rparr>))
          else (Inl RedisError, c))"

definition del_top10 :: "redis \<Rightarrow> unit \<times> redis" where
  "del_top10 r = ((), r\<lparr>top10_key := [], top10_ttl := None\<rparr>)"

text \<open>\<^verbatim>\<open>ZADD\<close>: a member already in the set only has its score replaced.\<close>

definition zAdd_top10 :: "(int \<times> top10_member) list \<Rightarrow> redis \<Rightarrow> unit \<times> redis" where
  "zAdd_top10 members r =
     ((), r\<lparr>top10_key :=
              fold (\<lambda>(sc, v) z. filter (\<lambda>(_, v'). v' \<noteq> v) z @ [(sc, v)]) members (top10_key r)\<rparr>)"

definition expire_top10 :: "nat \<Rightarrow> redis \<Rightarrow> unit \<times> redis" where
  "expire_top10 seconds r =
     ((), if top10_key r = [] then r else r\<lparr>top10_ttl := Some seconds\<rparr>)"

text \<open>\<^verbatim>\<open>ZRANGE key 0 -1 REV\<close>: every member, highest score first.\<close>

definition zRange_top10_rev :: "redis \<Rightarrow> top10_member list \<times> redis" where
  "zRange_top10_rev r = (map snd (sort_key (\<lambda>(sc, _). - sc) (top10_key r)), r)"

text \<open>\<^verbatim>\<open>scores.slice(0, 10).map((s, i) => ({ score: 10 - i, value: JSON.stringify(s) }))\<close>.\<close>

definition zset_of :: "top10_member list \<Rightarrow> (int \<times> top10_member) list" where
  "zset_of scores = map (\<lambda>(i, s). (10 - int i, s)) (enumerate 0 (take 10 scores))"

definition cacheTop10 :: "top10_member list \<Rightarrow> (unit, CacheService) promise" where
  "cacheTop10 scores =
     await (redis_command del_top10) (\<lambda>_.
     if length scores = 0 then resolve ()
     else
       let members = zset_of scores
       in if length members > 0 then
            await (redis_command (zAdd_top10 members)) (\<lambda>_.
            redis_command (expire_top10 TTL))
          else resolve ())"

text \<open>
  \<^verbatim>\<open>CacheService.getTop10\<close>: \<^verbatim>\<open>null\<close> for an empty reply, else the parsed members with
  \<^verbatim>\<open>rank: index + 1\<close>. The JSON has no \<^verbatim>\<open>lastUpdated\<close>, which is therefore undefined.
\<close>

definition entries_of_replies :: "top10_member list \<Rightarrow> Top10Entry list" where
  "entries_of_replies replies =
     map (\<lambda>(index, reply).
            \<lparr>e_rank = index + 1, e_userId = m_userId reply, e_username = m_username reply,
             e_score = m_score reply, e_lastUpdated = None\<rparr>) (enumerate 0 replies)"

definition cache_getTop10 :: "(Top10Entry list option, CacheService) promise" where
  "cache_getTop10 =
     await (redis_command zRange_top10_rev) (\<lambda>replies.
     if length replies = 0 then resolve None
     else resolve (Some (entries_of_replies replies)))"

definition invalidateTop10 :: "(unit, CacheService) promise" where
  "invalidateTop10 = redis_command del_top10"

section \<open>leaderboard.ts\<close>

record ScoreUpdateResult =
  userId :: string
  previousScore :: int
  newScore :: int
  scoreIncrease :: int
  rank :: nat
  timestamp :: instant

record score_updated =
  su_payload :: ScoreUpdateResult
  su_timestamp :: instant

text \<open>
  Everything the service and the routes act on: the SQLite handle, the module's
  \<^verbatim>\<open>cacheService\<close>, and what has been emitted to the Socket.IO room \<^verbatim>\<open>scoreboard\<close>.
\<close>

record world =
  db :: database
  cacheService :: CacheService
  scoreboard_room :: "score_updated list"

record env =
  uuid :: string
  now :: instant

definition on_db :: "('a, database) promise \<Rightarrow> ('a, world) promise" where
  "on_db m w = (case m (db w) of (r, d') \<Rightarrow> (r, w\<lparr>db := d'\<rparr>))"

definition on_cache :: "('a, CacheService) promise \<Rightarrow> ('a, world) promise" where
  "on_cache m w = (case m (cacheService w) of (r, c') \<Rightarrow> (r, w\<lparr>cacheService := c'\<rparr>))"

text \<open>
  The query of \<^verbatim>\<open>getUserRank\<close>: one group per \<^verbatim>\<open>user_id\<close> occurring in
  \<^verbatim>\<open>score_history\<close>, counted when its total is greater than the user's own
  (\<^verbatim>\<open>COALESCE(SUM, 0)\<close>), plus one.
\<close>

definition rank_query :: "database \<Rightarrow> string \<Rightarrow> nat" where
  "rank_query d ident =
     length (filter (\<lambda>g. sum_score_increase d g > sum_score_increase d ident)
                    (remdups (map sh_user_id (score_history d)))) + 1"

text \<open>\<^verbatim>\<open>resolve(row?.rank || 1)\<close>.\<close>

definition getUserRank :: "string \<Rightarrow> (nat, world) promise" where
  "getUserRank ident =
     on_db (db_statement (\<lambda>d.
       let r = rank_query d ident in (Inr (if r = 0 then 1 else r), d)))"

record top10_result =
  scores :: "Top10Entry list"
  cachedAt :: "instant option"

text \<open>\<^verbatim>\<open>{ userId: u.id, username: u.username, score: u.totalScore }\<close>.\<close>

definition member_of_row :: "user_with_score \<Rightarrow> top10_member" where
  "member_of_row u = \<lparr>m_userId = uws_id u, m_username = uws_username u, m_score = uws_totalScore u\<rparr>"

text \<open>\<^verbatim>\<open>allUsersWithScores.slice(0, 10).map(u => ...)\<close>: what is handed to the cache.\<close>

definition members_of_rows :: "user_with_score list \<Rightarrow> top10_member list" where
  "members_of_rows allUsersWithScores = map member_of_row (take 10 allUsersWithScores)"

text \<open>
  \<^verbatim>\<open>allUsersWithScores.slice(0, 10).map((u, i) => ...)\<close>: what is returned on a cache miss,
  with \<^verbatim>\<open>rank: i + 1\<close> and \<^verbatim>\<open>lastUpdated: u.lastUpdated || new Date().toISOString()\<close>.
\<close>

definition entries_of_rows :: "env \<Rightarrow> user_with_score list \<Rightarrow> Top10Entry list" where
  "entries_of_rows e allUsersWithScores =
     map (\<lambda>(i, u). \<lparr>e_rank = i + 1, e_userId = uws_id u, e_username = uws_username u,
                     e_score = uws_totalScore u,
                     e_lastUpdated = (case uws_lastUpdated u of None \<Rightarrow> Some (now e) | Some t \<Rightarrow> Some t)\<rparr>)
         (enumerate 0 (take 10 allUsersWithScores))"

text \<open>
  \<^verbatim>\<open>getTop10\<close>. The \<^verbatim>\<open>catch\<close> block logs and rethrows, so a rejected \<^verbatim>\<open>await\<close> is the
  result of the method.
\<close>

definition getTop10 :: "env \<Rightarrow> (top10_result, world) promise" where
  "getTop10 e =
     await (on_cache cache_getTop10) (\<lambda>cached.
     case (case cached of None \<Rightarrow> None | Some c \<Rightarrow> if length c > 0 then Some c else None) of
       Some c \<Rightarrow> resolve \<lparr>scores = c, cachedAt = Some (now e)\<rparr>
     | None \<Rightarrow>
       await (on_db getAllUsersWithScores) (\<lambda>allUsersWithScores.
       let top10 = members_of_rows allUsersWithScores
       in await (on_cache (cacheTop10 top10)) (\<lambda>_.
          resolve \<lparr>scores = entries_of_rows e allUsersWithScores, cachedAt = None\<rparr>)))"

text \<open>
  \<^verbatim>\<open>updateScore\<close>. \<^verbatim>\<open>!scoreValue\<close> holds of \<^verbatim>\<open>null\<close> and of 0; the two inserts are
  two separate statements, and no transaction is opened anywhere.
\<close>

definition updateScore :: "env \<Rightarrow> string \<Rightarrow> string \<Rightarrow> string \<Rightarrow> (ScoreUpdateResult, world) promise" where
  "updateScore e ident actionId actionType =
     await (on_db (isActionProcessed actionId)) (\<lambda>alreadyProcessed.
     if alreadyProcessed then
       await (on_db (getTotalScore ident)) (\<lambda>score.
       await (getUserRank ident) (\<lambda>rnk.
       resolve \<lparr>userId = ident, previousScore = score, newScore = score, scoreIncrease = 0,
                rank = rnk, timestamp = now e\<rparr>))
     else
       await (on_db (getActionScoreValue actionType)) (\<lambda>looked_up.
       case looked_up of
         None \<Rightarrow> throw (InvalidActionType actionType)
       | Some scoreValue \<Rightarrow>
         if scoreValue = 0 then throw (InvalidActionType actionType)
         else
           await (on_db (getTotalScore ident)) (\<lambda>prev.
           let historyEntry = \<lparr>sh_id = uuid e, sh_user_id = ident, sh_action_type = actionType,
                                sh_score_increase = scoreValue, sh_timestamp = now e\<rparr>
           in await (on_db (addScoreHistory historyEntry)) (\<lambda>_.
              await (on_db (recordAction actionId ident (now e))) (\<lambda>_.
              await (on_db (getTotalScore ident)) (\<lambda>new.
              await (on_cache invalidateTop10) (\<lambda>_.
              await (getUserRank ident) (\<lambda>rnk.
              resolve \<lparr>userId = ident, previousScore = prev, newScore = new,
                       scoreIncrease = scoreValue, rank = rnk, timestamp = now e\<rparr>))))))))"

record score_and_rank =
  sr_score :: int
  sr_rank :: nat

definition getUserScoreAndRank :: "string \<Rightarrow> (score_and_rank, world) promise" where
  "getUserScoreAndRank ident =
     await (on_db (getTotalScore ident)) (\<lambda>score.
     await (getUserRank ident) (\<lambda>rnk.
     resolve \<lparr>sr_score = score, sr_rank = rnk\<rparr>))"

section \<open>routes.ts and app.ts\<close>

text \<open>
  A field of the JSON body: absent, a string, or a value of another type (with its
  truthiness).
\<close>

datatype field = Missing | Text string | Other bool

definition not_field :: "field \<Rightarrow> bool" where
  "not_field f = (case f of Missing \<Rightarrow> True | Text s \<Rightarrow> s = [] | Other truthy \<Rightarrow> \<not> truthy)"

text \<open>
  The request after \<^verbatim>\<open>authMiddleware\<close> let it through: \<^verbatim>\<open>req.userId\<close> and the body.
  \<^verbatim>\<open>!userId\<close> holds of a missing and of an empty user id.
\<close>

record update_request =
  req_userId :: "string option"
  req_actionId :: field
  req_actionType :: field

datatype response =
    Ok200 ScoreUpdateResult
  | Unauthorized401
  | BadRequest400 string
  | NotFound404
  | InvalidActionType400 string
  | ServerError500 string

text \<open>\<^verbatim>\<open>err.message.includes('Invalid action type')\<close>.\<close>

definition message_includes_invalid_action_type :: "error \<Rightarrow> bool" where
  "message_includes_invalid_action_type err =
     (case err of InvalidActionType _ \<Rightarrow> True | _ \<Rightarrow> False)"

text \<open>
  \<^verbatim>\<open>app.locals.broadcastScoreUpdate\<close> of \<^verbatim>\<open>app.ts\<close>: the one place that emits
  \<^verbatim>\<open>score_updated\<close> to the room.
\<close>

definition broadcastScoreUpdate :: "env \<Rightarrow> ScoreUpdateResult \<Rightarrow> world \<Rightarrow> world" where
  "broadcastScoreUpdate e data w =
     w\<lparr>scoreboard_room := scoreboard_room w @ [\<lparr>su_payload = data, su_timestamp = now e\<rparr>]\<rparr>"

text \<open>
  The handler of \<^verbatim>\<open>POST /api/scores/update\<close>, from its first line to its last: the
  \<^verbatim>\<open>catch\<close> block maps a rejected \<^verbatim>\<open>await\<close> to 400 or 500.
\<close>

definition catch_update :: "error \<Rightarrow> response" where
  "catch_update err =
     (if message_includes_invalid_action_type err
      then InvalidActionType400 (case err of InvalidActionType t \<Rightarrow> t | _ \<Rightarrow> [])
      else ServerError500 ''Failed to update score'')"

definition post_scores_update :: "env \<Rightarrow> update_request \<Rightarrow> world \<Rightarrow> response \<times> world" where
  "post_scores_update e req w =
     (case req_userId req of
        None \<Rightarrow> (Unauthorized401, w)
      | Some ident \<Rightarrow>
          if ident = [] then (Unauthorized401, w)
          else if not_field (req_actionId req) \<or> not_field (req_actionType req)
          then (BadRequest400 ''Missing required fields: actionId, actionType'', w)
          else
            (case (req_actionId req, req_actionType req) of
               (Text actionId, Text actionType) \<Rightarrow>
                 (case on_db (getUserById ident) w of
                    (Inl err, w1) \<Rightarrow> (catch_update err, w1)
                  | (Inr None, w1) \<Rightarrow> (NotFound404, w1)
                  | (Inr (Some user), w1) \<Rightarrow>
                      (case updateScore e ident actionId actionType w1 of
                         (Inl err, w2) \<Rightarrow> (catch_update err, w2)
                       | (Inr result, w2) \<Rightarrow> (Ok200 result, w2)))
             | _ \<Rightarrow> (BadRequest400 ''Invalid field types'', w)))"

text \<open>The handler of \<^verbatim>\<open>GET /api/scores/top10\<close>.\<close>

definition get_scores_top10 :: "env \<Rightarrow> world \<Rightarrow> (string + top10_result) \<times> world" where
  "get_scores_top10 e w =
     (case getTop10 e w of
        (Inl err, w1) \<Rightarrow> (Inl ''Failed to fetch top 10 scores'', w1)
      | (Inr result, w1) \<Rightarrow> (Inr result, w1))"

section \<open>Clients and example states\<close>

text \<open>A client that awaits one \<^verbatim>\<open>updateScore\<close> after the other and stops at the first rejection.\<close>

fun apply_events ::
  "(env \<times> string \<times> string \<times> string) list \<Rightarrow> (ScoreUpdateResult list, world) promise" where
  "apply_events [] w = (Inr [], w)"
| "apply_events ((e, ident, actionId, actionType) # rest) w =
     (case updateScore e ident actionId actionType w of
        (Inl err, w1) \<Rightarrow> (Inl err, w1)
      | (Inr r, w1) \<Rightarrow>
          (case apply_events rest w1 of
             (Inl err, w2) \<Rightarrow> (Inl err, w2)
           | (Inr rs, w2) \<Rightarrow> (Inr (r # rs), w2)))"

text \<open>The cache answers commands: there is a client and the server is reachable.\<close>

definition cache_available :: "world \<Rightarrow> bool" where
  "cache_available w = (case client (cacheService w) of None \<Rightarrow> False | Some r \<Rightarrow> reachable r)"

text \<open>What a reader of the leaderboard sees of an entry: rank, user, name and score.\<close>

definition listed :: "Top10Entry \<Rightarrow> nat \<times> string \<times> string \<times> int" where
  "listed x = (e_rank x, e_userId x, e_username x, e_score x)"

definition demo_users :: "user_row list" where
  "demo_users =
     [\<lparr>u_id = ''A'', u_username = ''alice'', u_email = ''a@x'', u_createdAt = 0\<rparr>,
      \<lparr>u_id = ''B'', u_username = ''bob'', u_email = ''b@x'', u_createdAt = 0\<rparr>]"

definition demo_actions :: "action_row list" where
  "demo_actions =
     [\<lparr>act_id = ''quest'', act_action_type = ''quest'', act_score_value = 50, act_created_at = 0\<rparr>,
      \<lparr>act_id = ''medal'', act_action_type = ''medal'', act_score_value = 25, act_created_at = 0\<rparr>,
      \<lparr>act_id = ''free'', act_action_type = ''free'', act_score_value = 0, act_created_at = 0\<rparr>]"

definition redis_up :: redis where
  "redis_up = \<lparr>reachable = True, top10_key = [], top10_ttl = None\<rparr>"

text \<open>Two registered users, no event yet, a healthy store and an empty, reachable cache.\<close>

definition demo_world :: world where
  "demo_world =
     \<lparr>db = \<lparr>users = demo_users, score_history = [], actions = demo_actions, idempotency = [],
             faults = []\<rparr>,
      cacheService = \<lparr>client = Some redis_up\<rparr>,
      scoreboard_room = []\<rparr>"

text \<open>The same, after user A's event \<^verbatim>\<open>e1\<close> (a quest, 50 points) was processed.\<close>

definition replay_world :: world where
  "replay_world =
     demo_world\<lparr>db := (db demo_world)
       \<lparr>score_history := [\<lparr>sh_id = ''h1'', sh_user_id = ''A'', sh_action_type = ''quest'',
                            sh_score_increase = 50, sh_timestamp = 1\<rparr>],
        idempotency := [\<lparr>idem_action_id = ''e1'', idem_user_id = ''A'', idem_timestamp = 1\<rparr>]\<rparr>\<rparr>"

text \<open>The store answers four statements and fails the fifth.\<close>

definition failing_world :: world where
  "failing_world = demo_world\<lparr>db := (db demo_world)\<lparr>faults := [False, False, False, False, True]\<rparr>\<rparr>"

text \<open>
  What the failed call of \<open>failing_world\<close> leaves behind: A's row is in \<^verbatim>\<open>score_history\<close>,
  \<^verbatim>\<open>e1\<close> is not in \<^verbatim>\<open>idempotency\<close>, and the store answers again.
\<close>

definition half_written_world :: world where
  "half_written_world =
     demo_world\<lparr>db := (db demo_world)
       \<lparr>score_history := [\<lparr>sh_id = ''h1'', sh_user_id = ''A'', sh_action_type = ''quest'',
                            sh_score_increase = 50, sh_timestamp = 1\<rparr>]\<rparr>\<rparr>"

text \<open>The same, after \<^verbatim>\<open>e1\<close> was sent again: two rows for one quest.\<close>

definition counted_twice_world :: world where
  "counted_twice_world =
     demo_world\<lparr>db := (db demo_world)
       \<lparr>score_history := [\<lparr>sh_id = ''h1'', sh_user_id = ''A'', sh_action_type = ''quest'',
                            sh_score_increase = 50, sh_timestamp = 1\<rparr>,
                          \<lparr>sh_id = ''h2'', sh_user_id = ''A'', sh_action_type = ''quest'',
                            sh_score_increase = 50, sh_timestamp = 2\<rparr>],
        idempotency := [\<lparr>idem_action_id = ''e1'', idem_user_id = ''A'', idem_timestamp = 2\<rparr>]\<rparr>\<rparr>"

text \<open>B reached 50 points at instant 1, A reached 50 points at instant 2.\<close>

definition tie_world :: world where
  "tie_world =
     demo_world\<lparr>db := (db demo_world)
       \<lparr>score_history := [\<lparr>sh_id = ''h1'', sh_user_id = ''B'', sh_action_type = ''quest'',
                            sh_score_increase = 50, sh_timestamp = 1\<rparr>,
                          \<lparr>sh_id = ''h2'', sh_user_id = ''A'', sh_action_type = ''quest'',
                            sh_score_increase = 50, sh_timestamp = 2\<rparr>],
        idempotency := [\<lparr>idem_action_id = ''e1'', idem_user_id = ''B'', idem_timestamp = 1\<rparr>,
                        \<lparr>idem_action_id = ''e2'', idem_user_id = ''A'', idem_timestamp = 2\<rparr>]\<rparr>\<rparr>"

text \<open>
  A registered under the name zoe and B under the name amy: the order of the names is
  neither the order of the rows nor that of the ids. A reached 50 points at instant 1, B at
  instant 2.
\<close>

definition names_world :: world where
  "names_world =
     demo_world\<lparr>db := (db demo_world)
       \<lparr>users := [\<lparr>u_id = ''A'', u_username = ''zoe'', u_email = ''a@x'', u_createdAt = 0\<rparr>,
                   \<lparr>u_id = ''B'', u_username = ''amy'', u_email = ''b@x'', u_createdAt = 0\<rparr>],
        score_history := [\<lparr>sh_id = ''h1'', sh_user_id = ''A'', sh_action_type = ''quest'',
                            sh_score_increase = 50, sh_timestamp = 1\<rparr>,
                          \<lparr>sh_id = ''h2'', sh_user_id = ''B'', sh_action_type = ''quest'',
                            sh_score_increase = 50, sh_timestamp = 2\<rparr>],
        idempotency := [\<lparr>idem_action_id = ''e1'', idem_user_id = ''A'', idem_timestamp = 1\<rparr>,
                        \<lparr>idem_action_id = ''e2'', idem_user_id = ''B'', idem_timestamp = 2\<rparr>]\<rparr>\<rparr>"

text \<open>No Redis client was ever connected.\<close>

definition cacheless_world :: world where
  "cacheless_world = replay_world\<lparr>cacheService := \<lparr>client = None\<rparr>\<rparr>"

text \<open>The Redis server went away after the client had connected.\<close>

definition unreachable_world :: world where
  "unreachable_world =
     replay_world\<lparr>cacheService := \<lparr>client = Some (redis_up\<lparr>reachable := False\<rparr>)\<rparr>\<rparr>"



text \<open>
  The spec's scenario: A completes a quest (\<^verbatim>\<open>e1\<close>), sends \<^verbatim>\<open>e1\<close> again, then earns a
  medal (\<^verbatim>\<open>e2\<close>); and the state this leaves.
\<close>

definition scenario_calls :: "(env \<times> string \<times> string \<times> string) list" where
  "scenario_calls =
     [(\<lparr>uuid = ''h1'', now = 1\<rparr>, ''A'', ''e1'', ''quest''),
      (\<lparr>uuid = ''h2'', now = 2\<rparr>, ''A'', ''e1'', ''quest''),
      (\<lparr>uuid = ''h3'', now = 3\<rparr>, ''A'', ''e2'', ''medal'')]"

definition scenario_world :: world where
  "scenario_world =
     demo_world\<lparr>db := (db demo_world)
       \<lparr>score_history := [\<lparr>sh_id = ''h1'', sh_user_id = ''A'', sh_action_type = ''quest'',
                            sh_score_increase = 50, sh_timestamp = 1\<rparr>,
                          \<lparr>sh_id = ''h3'', sh_user_id = ''A'', sh_action_type = ''medal'',
                            sh_score_increase = 25, sh_timestamp = 3\<rparr>],
        idempotency := [\<lparr>idem_action_id = ''e1'', idem_user_id = ''A'', idem_timestamp = 1\<rparr>,
                        \<lparr>idem_action_id = ''e2'', idem_user_id = ''A'', idem_timestamp = 3\<rparr>]\<rparr>\<rparr>"

section \<open>Properties of the store and of \<^verbatim>\<open>updateScore\<close>\<close>

subsection \<open>A healthy store\<close>

lemma isActionProcessed_healthy:
  "faults (db w) = [] \<Longrightarrow>
   on_db (isActionProcessed a) w = (Inr (select_idempotency (db w) a \<noteq> None), w)"
  by (simp add: on_db_def isActionProcessed_def db_statement_def)

lemma getTotalScore_healthy:
  "faults (db w) = [] \<Longrightarrow> on_db (getTotalScore u) w = (Inr (sum_score_increase (db w) u), w)"
  by (simp add: on_db_def getTotalScore_def db_statement_def)

lemma getUserRank_healthy:
  "faults (db w) = [] \<Longrightarrow> getUserRank u w = (Inr (rank_query (db w) u), w)"
  by (simp add: on_db_def getUserRank_def db_statement_def rank_query_def)

lemma getActionScoreValue_healthy:
  "faults (db w) = [] \<Longrightarrow>
   on_db (getActionScoreValue t) w =
     (Inr (case select_action (db w) t of
             None \<Rightarrow> None
           | Some row \<Rightarrow> if act_score_value row = 0 then None else Some (act_score_value row)), w)"
  by (simp add: on_db_def getActionScoreValue_def db_statement_def)

lemma select_idempotency_iff:
  "select_idempotency d a \<noteq> None \<longleftrightarrow> a \<in> set (map idem_action_id (idempotency d))"
  by (auto simp: select_idempotency_def find_None_iff)

lemma addScoreHistory_healthy:
  "faults (db w) = [] \<Longrightarrow>
   on_db (addScoreHistory row) w =
     (if sh_id row \<in> set (map sh_id (score_history (db w))) then (Inl SqliteConstraint, w)
      else (Inr row, w\<lparr>db := insert_score_history row (db w)\<rparr>))"
  by (simp add: on_db_def addScoreHistory_def db_statement_def)

lemma recordAction_healthy:
  "faults (db w) = [] \<Longrightarrow> select_idempotency (db w) actionId = None \<Longrightarrow>
   on_db (recordAction actionId ident t) w =
     (Inr (), w\<lparr>db := insert_idempotency
        \<lparr>idem_action_id = actionId, idem_user_id = ident, idem_timestamp = t\<rparr> (db w)\<rparr>)"
  using select_idempotency_iff[of "db w" actionId]
  by (simp add: on_db_def recordAction_def db_statement_def)

lemma invalidateTop10_run:
  "on_cache invalidateTop10 w =
     (case client (cacheService w) of
        None \<Rightarrow> (Inl RedisNotConnected, w)
      | Some r \<Rightarrow>
          if reachable r
          then (Inr (), w\<lparr>cacheService := \<lparr>client = Some (r\<lparr>top10_key := [], top10_ttl := None\<rparr>)\<rparr>\<rparr>)
          else (Inl RedisError, w))"
  by (simp add: on_cache_def invalidateTop10_def redis_command_def del_top10_def
      split: option.splits)

lemma faults_insert_score_history: "faults (insert_score_history row d) = faults d"
  by (simp add: insert_score_history_def)

lemma faults_insert_idempotency: "faults (insert_idempotency row d) = faults d"
  by (simp add: insert_idempotency_def)

lemma select_idempotency_insert_score_history:
  "select_idempotency (insert_score_history row d) a = select_idempotency d a"
  by (simp add: select_idempotency_def insert_score_history_def)

lemma sum_score_increase_insert_idempotency:
  "sum_score_increase (insert_idempotency row d) u = sum_score_increase d u"
  by (simp add: sum_score_increase_def insert_idempotency_def)

lemma sum_score_increase_insert_score_history:
  "sum_score_increase (insert_score_history row d) u =
     sum_score_increase d u + (if sh_user_id row = u then sh_score_increase row else 0)"
  by (simp add: sum_score_increase_def insert_score_history_def)

lemmas healthy_simps = isActionProcessed_healthy getTotalScore_healthy getUserRank_healthy
  getActionScoreValue_healthy addScoreHistory_healthy recordAction_healthy
  faults_insert_score_history faults_insert_idempotency select_idempotency_insert_score_history
  sum_score_increase_insert_idempotency sum_score_increase_insert_score_history

subsection \<open>The three ways through \<^verbatim>\<open>updateScore\<close>\<close>

lemma updateScore_replay:
  assumes "faults (db w) = []" and "select_idempotency (db w) actionId \<noteq> None"
  shows "updateScore e ident actionId actionType w =
           (Inr \<lparr>userId = ident, previousScore = sum_score_increase (db w) ident,
                 newScore = sum_score_increase (db w) ident, scoreIncrease = 0,
                 rank = rank_query (db w) ident, timestamp = now e\<rparr>, w)"
  using assms by (simp add: updateScore_def await_def resolve_def healthy_simps)

lemma updateScore_rejected:
  assumes "faults (db w) = []" and "select_idempotency (db w) actionId = None"
    and "case select_action (db w) actionType of None \<Rightarrow> True | Some row \<Rightarrow> act_score_value row = 0"
  shows "updateScore e ident actionId actionType w = (Inl (InvalidActionType actionType), w)"
  using assms
  by (simp add: updateScore_def await_def throw_def healthy_simps split: option.splits)

text \<open>The state after both inserts of an accepted event.\<close>

lemma updateScore_inserts:
  assumes h: "faults (db w) = []" and np: "select_idempotency (db w) actionId = None"
    and cv: "select_action (db w) actionType = Some row" and nz: "act_score_value row \<noteq> 0"
  shows "updateScore e ident actionId actionType w =
    (let entry = \<lparr>sh_id = uuid e, sh_user_id = ident, sh_action_type = actionType,
                  sh_score_increase = act_score_value row, sh_timestamp = now e\<rparr>;
         claim = \<lparr>idem_action_id = actionId, idem_user_id = ident, idem_timestamp = now e\<rparr>;
         d2 = insert_idempotency claim (insert_score_history entry (db w))
     in if uuid e \<in> set (map sh_id (score_history (db w))) then (Inl SqliteConstraint, w)
        else case client (cacheService w) of
               None \<Rightarrow> (Inl RedisNotConnected, w\<lparr>db := d2\<rparr>)
             | Some r \<Rightarrow>
                 if reachable r then
                   (Inr \<lparr>userId = ident, previousScore = sum_score_increase (db w) ident,
                         newScore = sum_score_increase (db w) ident + act_score_value row,
                         scoreIncrease = act_score_value row,
                         rank = rank_query d2 ident, timestamp = now e\<rparr>,
                    w\<lparr>db := d2,
                      cacheService := \<lparr>client = Some (r\<lparr>top10_key := [], top10_ttl := None\<rparr>)\<rparr>\<rparr>)
                 else (Inl RedisError, w\<lparr>db := d2\<rparr>))"
  using assms
  by (simp add: updateScore_def await_def resolve_def healthy_simps invalidateTop10_run Let_def
      split: option.splits)

text \<open>What a call that returned has done to the totals and to the two tables.\<close>

lemma updateScore_returned:
  assumes h: "faults (db w) = []"
    and ret: "updateScore e ident actionId actionType w = (Inr r, w1)"
  shows "faults (db w1) = []"
    and "select_idempotency (db w1) actionId \<noteq> None"
    and "userId r = ident"
    and "newScore r = sum_score_increase (db w1) ident"
    and "rank r = rank_query (db w1) ident"
    and "sum_score_increase (db w1) u =
           sum_score_increase (db w) u + (if u = ident then scoreIncrease r else 0)"
    and "users (db w1) = users (db w)"
    and "actions (db w1) = actions (db w)"
proof -
  have all: "faults (db w1) = [] \<and> select_idempotency (db w1) actionId \<noteq> None \<and> userId r = ident
      \<and> newScore r = sum_score_increase (db w1) ident \<and> rank r = rank_query (db w1) ident
      \<and> sum_score_increase (db w1) u =
           sum_score_increase (db w) u + (if u = ident then scoreIncrease r else 0)
      \<and> users (db w1) = users (db w) \<and> actions (db w1) = actions (db w)"
  proof (cases "select_idempotency (db w) actionId")
    case (Some c)
    with h ret show ?thesis by (auto simp: updateScore_replay)
  next
    case None
    show ?thesis
    proof (cases "select_action (db w) actionType")
      case no_row: None
      with h None ret show ?thesis by (simp add: updateScore_rejected)
    next
      case (Some row)
      show ?thesis
      proof (cases "act_score_value row = 0")
        case True
        with h None Some ret show ?thesis by (simp add: updateScore_rejected)
      next
        case False
        let ?d2 = "insert_idempotency
            \<lparr>idem_action_id = actionId, idem_user_id = ident, idem_timestamp = now e\<rparr>
            (insert_score_history
              \<lparr>sh_id = uuid e, sh_user_id = ident, sh_action_type = actionType,
               sh_score_increase = act_score_value row, sh_timestamp = now e\<rparr> (db w))"
        have sel: "select_idempotency ?d2 actionId \<noteq> None"
          by (subst select_idempotency_iff) (simp add: insert_idempotency_def)
        have same: "users ?d2 = users (db w)" "actions ?d2 = actions (db w)"
          by (simp_all add: insert_idempotency_def insert_score_history_def)
        from h None Some False ret
        have d: "db w1 = ?d2"
          and r: "r = \<lparr>userId = ident, previousScore = sum_score_increase (db w) ident,
                     newScore = sum_score_increase (db w) ident + act_score_value row,
                     scoreIncrease = act_score_value row,
                     rank = rank_query ?d2 ident, timestamp = now e\<rparr>"
          by (auto simp: updateScore_inserts Let_def split: option.splits if_splits)
        show ?thesis
          unfolding d r using h sel same by (simp add: healthy_simps)
      qed
    qed
  qed
  then show "faults (db w1) = []"
    and "select_idempotency (db w1) actionId \<noteq> None"
    and "userId r = ident"
    and "newScore r = sum_score_increase (db w1) ident"
    and "rank r = rank_query (db w1) ident"
    and "sum_score_increase (db w1) u =
           sum_score_increase (db w) u + (if u = ident then scoreIncrease r else 0)"
    and "users (db w1) = users (db w)"
    and "actions (db w1) = actions (db w)"
    by simp_all
qed

lemma updateScore_returned_fresh:
  assumes h: "faults (db w) = []" and np: "select_idempotency (db w) actionId = None"
    and ret: "updateScore e ident actionId actionType w = (Inr r, w1)"
  shows "score_history (db w1) = score_history (db w) @
           [\<lparr>sh_id = uuid e, sh_user_id = ident, sh_action_type = actionType,
             sh_score_increase = scoreIncrease r, sh_timestamp = now e\<rparr>]
       \<and> idempotency (db w1) = idempotency (db w) @
           [\<lparr>idem_action_id = actionId, idem_user_id = ident, idem_timestamp = now e\<rparr>]
       \<and> scoreIncrease r \<noteq> 0"
proof (cases "select_action (db w) actionType")
  case None
  with h np ret show ?thesis by (simp add: updateScore_rejected)
next
  case (Some row)
  show ?thesis
  proof (cases "act_score_value row = 0")
    case True
    with h np Some ret show ?thesis by (simp add: updateScore_rejected)
  next
    case False
    from h np Some False ret show ?thesis
      by (auto simp: updateScore_inserts Let_def insert_idempotency_def
          insert_score_history_def split: option.splits if_splits)
  qed
qed

subsection \<open>Evaluation\<close>

lemmas eval_defs = updateScore_def await_def resolve_def throw_def on_db_def on_cache_def
  isActionProcessed_def db_statement_def getActionScoreValue_def getTotalScore_def
  addScoreHistory_def recordAction_def invalidateTop10_def insert_score_history_def
  insert_idempotency_def redis_command_def del_top10_def getUserRank_def getUserById_def Let_def

lemmas world_defs = demo_world_def replay_world_def failing_world_def tie_world_def
  names_world_def half_written_world_def counted_twice_world_def cacheless_world_def
  demo_users_def demo_actions_def redis_up_def

lemmas query_defs = select_idempotency_def select_action_def select_user_def
  sum_score_increase_def rank_query_def

lemma getUserById_healthy:
  "faults (db w) = [] \<Longrightarrow> on_db (getUserById ident) w = (Inr (select_user (db w) ident), w)"
  by (simp add: on_db_def getUserById_def db_statement_def)

subsection \<open>Nothing on the update path emits\<close>

lemma room_on_db: "scoreboard_room (snd (on_db m w)) = scoreboard_room w"
  by (simp add: on_db_def split: prod.splits)

lemma room_on_cache: "scoreboard_room (snd (on_cache m w)) = scoreboard_room w"
  by (simp add: on_cache_def split: prod.splits)

lemma room_await:
  assumes m: "\<And>w. scoreboard_room (snd (m w)) = scoreboard_room w"
    and k: "\<And>x w. scoreboard_room (snd (k x w)) = scoreboard_room w"
  shows "scoreboard_room (snd (await m k w)) = scoreboard_room w"
proof (cases "m w")
  case (Pair r w1)
  with m[of w] have same: "scoreboard_room w1 = scoreboard_room w" by simp
  show ?thesis
  proof (cases r)
    case (Inl err)
    with Pair same show ?thesis by (simp add: await_def)
  next
    case (Inr x)
    with Pair same k[of x w1] show ?thesis by (simp add: await_def)
  qed
qed

lemma room_getUserRank: "scoreboard_room (snd (getUserRank u w)) = scoreboard_room w"
  by (simp add: getUserRank_def room_on_db)

lemma room_updateScore:
  "scoreboard_room (snd (updateScore e ident actionId actionType w)) = scoreboard_room w"
  unfolding updateScore_def Let_def
  by (intro room_await room_on_db)
    (auto intro!: room_await simp: room_on_db room_on_cache room_getUserRank resolve_def throw_def
      split: option.splits)

lemma post_scores_update_silent:
  "scoreboard_room (snd (post_scores_update e req w)) = scoreboard_room w"
proof -
  have a: "on_db m w = (r, w1) \<Longrightarrow> scoreboard_room w1 = scoreboard_room w"
    for m :: "(user_row option, database) promise" and r w1
    using room_on_db[of m w] by simp
  have b: "updateScore e i a t w1 = (r, w2) \<Longrightarrow> scoreboard_room w2 = scoreboard_room w1"
    for i a t r w1 w2
    using room_updateScore[of e i a t w1] by simp
  show ?thesis
    unfolding post_scores_update_def
    by (auto split: option.splits prod.splits sum.splits field.splits dest!: a b)
qed

subsection \<open>The cache and \<^verbatim>\<open>getTop10\<close>\<close>

lemma getTop10_cache_down:
  assumes "\<not> cache_available w"
  shows "getTop10 e w =
           (Inl (if client (cacheService w) = None then RedisNotConnected else RedisError), w)"
proof (cases "client (cacheService w)")
  case None
  then show ?thesis
    by (simp add: getTop10_def await_def on_cache_def cache_getTop10_def redis_command_def)
next
  case (Some r)
  with assms have "\<not> reachable r" by (simp add: cache_available_def)
  with Some show ?thesis
    by (simp add: getTop10_def await_def on_cache_def cache_getTop10_def redis_command_def)
qed

lemma getAllUsersWithScores_healthy:
  "faults (db w) = [] \<Longrightarrow>
   on_db getAllUsersWithScores w =
     (Inr (order_by_totalScore_desc (map (grouped_user (db w)) (scan_users (db w)))), w)"
  by (simp add: on_db_def getAllUsersWithScores_def db_statement_def)

lemma zAdd_fold_distinct:
  "distinct (map snd (acc @ ms)) \<Longrightarrow>
   fold (\<lambda>(sc, v) z. filter (\<lambda>(_, v'). v' \<noteq> v) z @ [(sc, v)]) ms acc = acc @ ms"
proof (induction ms arbitrary: acc)
  case Nil
  then show ?case by simp
next
  case (Cons m ms)
  obtain sc v where m: "m = (sc, v)" by (cases m)
  from Cons.prems m have "v \<notin> snd ` set acc" by auto
  then have keep: "filter (\<lambda>(_, v'). v' \<noteq> v) acc = acc"
    by (force simp: filter_id_conv)
  from Cons.prems have "distinct (map snd ((acc @ [m]) @ ms))" by simp
  from Cons.IH[OF this] m keep show ?case by simp
qed

lemma map_snd_zset_of: "map snd (zset_of ms) = take 10 ms"
  by (simp add: zset_of_def split_def o_def)


lemma cacheTop10_stores:
  assumes c: "client (cacheService w) = Some r" and up: "reachable r" and d: "distinct ms"
  shows "on_cache (cacheTop10 ms) w =
     (Inr (), w\<lparr>cacheService := \<lparr>client = Some
        (r\<lparr>top10_key := zset_of ms, top10_ttl := (if ms = [] then None else Some TTL)\<rparr>)\<rparr>\<rparr>)"
proof -
  have dd: "distinct (map snd ([] @ zset_of ms))"
    using d by (simp add: map_snd_zset_of)
  have z: "fold (\<lambda>(sc, v) z. filter (\<lambda>(_, v'). v' \<noteq> v) z @ [(sc, v)]) (zset_of ms) [] = zset_of ms"
    using zAdd_fold_distinct[OF dd] by simp
  have ne: "ms \<noteq> [] \<Longrightarrow> zset_of ms \<noteq> []"
    by (cases ms) (simp_all add: zset_of_def enumerate_simps)
  have e: "ms = [] \<Longrightarrow> zset_of ms = []"
    by (simp add: zset_of_def)
  show ?thesis
    using c up ne e
    by (simp add: cacheTop10_def on_cache_def await_def resolve_def redis_command_def
        del_top10_def zAdd_top10_def expire_top10_def Let_def z)
qed

lemma cache_getTop10_run:
  assumes "client (cacheService w) = Some r" and "reachable r"
  shows "on_cache cache_getTop10 w =
     (Inr (let replies = fst (zRange_top10_rev r)
           in if replies = [] then None else Some (entries_of_replies replies)), w)"
proof -
  have same: "w\<lparr>cacheService := \<lparr>client = Some r\<rparr>\<rparr> = w"
    using assms(1) by (cases w, cases "cacheService w") simp
  show ?thesis
    using assms same
    by (simp add: on_cache_def cache_getTop10_def await_def resolve_def redis_command_def
        zRange_top10_rev_def entries_of_replies_def Let_def)
qed


lemma distinct_map_sort_key:
  "distinct (map f (sort_key k xs)) = distinct (map f xs)"
  by (simp add: distinct_map)

lemma set_scan_users: "set (scan_users d) = set (users d)"
  by (simp add: scan_users_def)

lemma length_scan_users: "length (scan_users d) = length (users d)"
  by (simp add: scan_users_def)

lemma distinct_scan_users:
  "distinct (map u_id (scan_users d)) = distinct (map u_id (users d))"
  by (simp add: scan_users_def distinct_map)

lemma map_uws_id_grouped: "map uws_id (map (grouped_user d) us) = map u_id us"
  by (simp add: grouped_user_def)

lemma distinct_members_of_rows:
  assumes "distinct (map u_id (users d))"
  shows "distinct (members_of_rows (order_by_totalScore_desc (map (grouped_user d) (scan_users d))))"
proof -
  let ?rows = "order_by_totalScore_desc (map (grouped_user d) (scan_users d))"
  have "distinct (map uws_id ?rows)"
    unfolding order_by_totalScore_desc_def distinct_map_sort_key map_uws_id_grouped
      distinct_scan_users
    by (rule assms)
  then have "distinct (take 10 (map uws_id ?rows))"
    by (rule distinct_take)
  moreover have "map m_userId (members_of_rows ?rows) = take 10 (map uws_id ?rows)"
    by (simp add: members_of_rows_def member_of_row_def o_def take_map)
  ultimately show ?thesis
    by (metis distinct_map)
qed

lemma getTop10_miss:
  assumes h: "faults (db w) = []" and c: "client (cacheService w) = Some r" and up: "reachable r"
    and empty: "top10_key r = []" and pk: "distinct (map u_id (users (db w)))"
  shows "getTop10 e w =
     (let rows = order_by_totalScore_desc (map (grouped_user (db w)) (scan_users (db w)))
      in (Inr \<lparr>scores = entries_of_rows e rows, cachedAt = None\<rparr>,
          w\<lparr>cacheService := \<lparr>client = Some
             (r\<lparr>top10_key := zset_of (members_of_rows rows),
                top10_ttl := (if members_of_rows rows = [] then None else Some TTL)\<rparr>)\<rparr>\<rparr>))"
proof -
  let ?rows = "order_by_totalScore_desc (map (grouped_user (db w)) (scan_users (db w)))"
  have miss: "on_cache cache_getTop10 w = (Inr None, w)"
    using c up empty by (simp add: cache_getTop10_run zRange_top10_rev_def)
  have store: "on_cache (cacheTop10 (members_of_rows ?rows)) w =
     (Inr (), w\<lparr>cacheService := \<lparr>client = Some
        (r\<lparr>top10_key := zset_of (members_of_rows ?rows),
           top10_ttl := (if members_of_rows ?rows = [] then None else Some TTL)\<rparr>)\<rparr>\<rparr>)"
    using cacheTop10_stores[OF c up distinct_members_of_rows[OF pk]] .
  show ?thesis
    using h
    by (simp add: getTop10_def await_def resolve_def miss getAllUsersWithScores_healthy Let_def
        store)
qed


subsection \<open>Position in the list and \<^verbatim>\<open>getUserRank\<close>\<close>

lemma sum_score_increase_nonneg:
  assumes "\<forall>row\<in>set (score_history d). 0 \<le> sh_score_increase row"
  shows "0 \<le> sum_score_increase d u"
  unfolding sum_score_increase_def using assms by (intro sum_list_nonneg) auto

lemma sum_score_increase_pos_has_row:
  assumes "0 < sum_score_increase d u"
  shows "u \<in> set (map sh_user_id (score_history d))"
proof (rule ccontr)
  assume "u \<notin> set (map sh_user_id (score_history d))"
  then have "filter (\<lambda>r. sh_user_id r = u) (score_history d) = []"
    by (auto simp: filter_empty_conv)
  then have "sum_score_increase d u = 0" by (simp add: sum_score_increase_def)
  with assms show False by simp
qed

lemma length_filter_distinct:
  "distinct xs \<Longrightarrow> length (filter Q xs) = card {x \<in> set xs. Q x}"
  by (metis distinct_card distinct_filter set_filter)

lemma sorted_desc_rows:
  "sorted (map (\<lambda>r. - uws_totalScore r) (order_by_totalScore_desc rows))"
  by (simp add: order_by_totalScore_desc_def)

lemma filter_above_prefix:
  assumes s: "sorted (map (\<lambda>r. - uws_totalScore r) rows)" and i: "i < length rows"
  shows "filter (\<lambda>x. uws_totalScore x > uws_totalScore (rows ! i)) rows =
         filter (\<lambda>x. uws_totalScore x > uws_totalScore (rows ! i)) (take i rows)"
proof -
  have "\<forall>x \<in> set (drop i rows). \<not> uws_totalScore x > uws_totalScore (rows ! i)"
  proof
    fix x assume "x \<in> set (drop i rows)"
    then obtain j where j: "j < length (drop i rows)" and x: "x = drop i rows ! j"
      by (auto simp: in_set_conv_nth)
    then have ij: "i + j < length rows" and x': "x = rows ! (i + j)" by simp_all
    from s ij have "map (\<lambda>r. - uws_totalScore r) rows ! i \<le> map (\<lambda>r. - uws_totalScore r) rows ! (i + j)"
      by (intro sorted_nth_mono) simp_all
    with i ij x' show "\<not> uws_totalScore x > uws_totalScore (rows ! i)" by simp
  qed
  then have "filter (\<lambda>x. uws_totalScore x > uws_totalScore (rows ! i)) (drop i rows) = []"
    by (simp add: filter_empty_conv)
  then have "filter (\<lambda>x. uws_totalScore x > uws_totalScore (rows ! i)) (take i rows @ drop i rows) =
      filter (\<lambda>x. uws_totalScore x > uws_totalScore (rows ! i)) (take i rows)"
    by (simp only: filter_append) simp
  then show ?thesis by simp
qed

lemma rank_query_position:
  assumes pk: "distinct (map u_id (users d))"
    and fk: "set (map sh_user_id (score_history d)) \<subseteq> set (map u_id (users d))"
    and nonneg: "\<forall>row\<in>set (score_history d). 0 \<le> sh_score_increase row"
    and i: "i < length (users d)"
  shows "rank_query d (uws_id (order_by_totalScore_desc (map (grouped_user d) (scan_users d)) ! i)) =
         1 + length (filter (\<lambda>x. uws_totalScore x >
                uws_totalScore (order_by_totalScore_desc (map (grouped_user d) (scan_users d)) ! i))
              (take i (order_by_totalScore_desc (map (grouped_user d) (scan_users d)))))"
proof -
  let ?rows = "order_by_totalScore_desc (map (grouped_user d) (scan_users d))"
  let ?t = "uws_totalScore (?rows ! i)"
  let ?u = "uws_id (?rows ! i)"
  let ?groups = "remdups (map sh_user_id (score_history d))"
  have len: "length ?rows = length (users d)"
    by (simp add: order_by_totalScore_desc_def length_scan_users)
  with i have "?rows ! i \<in> set ?rows" by simp
  then have "?rows ! i \<in> set (map (grouped_user d) (scan_users d))"
    by (simp add: order_by_totalScore_desc_def)
  then obtain u where u: "u \<in> set (users d)" and row: "?rows ! i = grouped_user d u"
    by (auto simp: set_scan_users)
  have t: "?t = sum_score_increase d ?u"
    unfolding row by (simp add: grouped_user_def)
  have t0: "0 \<le> ?t"
    unfolding t by (rule sum_score_increase_nonneg[OF nonneg])
  have "length (filter (\<lambda>x. uws_totalScore x > ?t) (take i ?rows)) =
        length (filter (\<lambda>x. uws_totalScore x > ?t) ?rows)"
    using filter_above_prefix[OF sorted_desc_rows, of i "map (grouped_user d) (scan_users d)"] i len
    by simp
  also have "\<dots> = length (filter (\<lambda>x. uws_totalScore x > ?t) (map (grouped_user d) (scan_users d)))"
    by (simp add: order_by_totalScore_desc_def filter_sort)
  also have "\<dots> = length (filter (\<lambda>g. sum_score_increase d g > ?t) (map u_id (scan_users d)))"
    by (simp add: filter_map o_def grouped_user_def)
  also have "\<dots> = card {g \<in> set (map u_id (scan_users d)). sum_score_increase d g > ?t}"
    by (rule length_filter_distinct) (simp add: distinct_scan_users pk)
  also have "\<dots> = card {g \<in> set (map u_id (users d)). sum_score_increase d g > ?t}"
    by (simp add: set_scan_users)
  also have "{g \<in> set (map u_id (users d)). sum_score_increase d g > ?t} =
             {g \<in> set ?groups. sum_score_increase d g > ?t}"
    using fk t0 sum_score_increase_pos_has_row[of d] by fastforce
  also have "card \<dots> = length (filter (\<lambda>g. sum_score_increase d g > ?t) ?groups)"
    by (rule length_filter_distinct[symmetric]) simp
  finally show ?thesis
    by (simp add: rank_query_def t)
qed

lemma length_entries_of_rows: "length (entries_of_rows e rows) = min (length rows) 10"
  by (simp add: entries_of_rows_def)

lemma entries_of_rows_nth:
  assumes "i < length rows" and "i < 10"
  shows "entries_of_rows e rows ! i =
     \<lparr>e_rank = i + 1, e_userId = uws_id (rows ! i), e_username = uws_username (rows ! i),
      e_score = uws_totalScore (rows ! i),
      e_lastUpdated = (case uws_lastUpdated (rows ! i) of None \<Rightarrow> Some (now e) | Some t \<Rightarrow> Some t)\<rparr>"
  using assms by (simp add: entries_of_rows_def nth_enumerate_eq)

lemma map_e_score_entries:
  "map e_score (entries_of_rows e rows) = map uws_totalScore (take 10 rows)"
  by (simp add: list_eq_iff_nth_eq entries_of_rows_def nth_enumerate_eq)

lemma length_filter_full:
  "length (filter P xs) = length xs \<longleftrightarrow> (\<forall>x\<in>set xs. P x)"
proof (induction xs)
  case Nil
  then show ?case by simp
next
  case (Cons x xs)
  show ?case
  proof (cases "P x")
    case True
    with Cons show ?thesis by simp
  next
    case False
    have "length (filter P xs) \<le> length xs" by simp
    then have "length (filter P xs) \<noteq> Suc (length xs)" by linarith
    with False show ?thesis by simp
  qed
qed

lemma count_above_entries:
  assumes "i \<le> 10"
  shows "length (filter (\<lambda>x. e_score x > t) (take i (entries_of_rows e rows))) =
         length (filter (\<lambda>x. uws_totalScore x > t) (take i rows))"
proof -
  have "length (filter (\<lambda>x. e_score x > t) (take i (entries_of_rows e rows))) =
        length (filter (\<lambda>s. s > t) (map e_score (take i (entries_of_rows e rows))))"
    by (simp add: filter_map o_def)
  also have "map e_score (take i (entries_of_rows e rows)) = take i (map e_score (entries_of_rows e rows))"
    by (simp add: take_map)
  also have "\<dots> = take i (map uws_totalScore (take 10 rows))"
    by (simp only: map_e_score_entries)
  also have "\<dots> = map uws_totalScore (take i rows)"
    using assms by (simp add: take_map min_def)
  finally show ?thesis by (simp add: filter_map o_def)
qed

lemma rows_above_before:
  assumes s: "sorted (map (\<lambda>r. - uws_totalScore r) rows)" and i: "i < length rows"
  shows "(length (filter (\<lambda>x. uws_totalScore x > uws_totalScore (rows ! i)) (take i rows)) = i) =
         (\<forall>j<i. uws_totalScore (rows ! j) \<noteq> uws_totalScore (rows ! i))"
proof -
  have ge: "uws_totalScore (rows ! i) \<le> uws_totalScore (rows ! j)" if "j < i" for j
  proof -
    from s that i
    have "map (\<lambda>r. - uws_totalScore r) rows ! j \<le> map (\<lambda>r. - uws_totalScore r) rows ! i"
      by (intro sorted_nth_mono) simp_all
    with that i show ?thesis by simp
  qed
  have "(length (filter (\<lambda>x. uws_totalScore x > uws_totalScore (rows ! i)) (take i rows)) = i) =
        (length (filter (\<lambda>x. uws_totalScore x > uws_totalScore (rows ! i)) (take i rows)) =
           length (take i rows))"
    using i by simp
  also have "\<dots> = (\<forall>x\<in>set (take i rows). uws_totalScore x > uws_totalScore (rows ! i))"
    by (rule length_filter_full)
  also have "\<dots> = (\<forall>j<i. uws_totalScore (rows ! j) > uws_totalScore (rows ! i))"
    using i by (simp add: all_set_conv_all_nth)
  also have "\<dots> = (\<forall>j<i. uws_totalScore (rows ! j) \<noteq> uws_totalScore (rows ! i))"
    using ge by (auto simp: less_le)
  finally show ?thesis .
qed

subsection \<open>Listings and time\<close>








subsection \<open>Order of the listing\<close>







lemmas top10_eval_defs = getTop10_def cache_getTop10_def cacheTop10_def getAllUsersWithScores_def
  order_by_totalScore_desc_def scan_users_def grouped_user_def max_timestamp_def
  zRange_top10_rev_def
  zAdd_top10_def expire_top10_def TTL_def zset_of_def
  entries_of_replies_def entries_of_rows_def members_of_rows_def member_of_row_def

subsection \<open>Sequences of calls\<close>

lemma apply_events_totals:
  "faults (db w) = [] \<Longrightarrow> apply_events calls w = (Inr rs, w1) \<Longrightarrow>
   faults (db w1) = [] \<and>
   sum_score_increase (db w1) u =
     sum_score_increase (db w) u + sum_list (map scoreIncrease (filter (\<lambda>r. userId r = u) rs))"
proof (induction calls arbitrary: w rs)
  case Nil
  then show ?case by simp
next
  case (Cons call calls)
  obtain e ident actionId actionType where call: "call = (e, ident, actionId, actionType)"
    by (cases call) auto
  from Cons.prems(2) call obtain r w0 rs0
    where step: "updateScore e ident actionId actionType w = (Inr r, w0)"
      and rest: "apply_events calls w0 = (Inr rs0, w1)" and rs: "rs = r # rs0"
    by (auto split: prod.splits sum.splits)
  note facts = updateScore_returned[OF Cons.prems(1) step]
  from Cons.IH[OF facts(1) rest] facts(3) facts(6)[of u] rs show ?case by auto
qed

lemma scenario_run:
  "apply_events scenario_calls demo_world =
     (Inr [\<lparr>userId = ''A'', previousScore = 0, newScore = 50, scoreIncrease = 50, rank = 1, timestamp = 1\<rparr>,
           \<lparr>userId = ''A'', previousScore = 50, newScore = 50, scoreIncrease = 0, rank = 1, timestamp = 2\<rparr>,
           \<lparr>userId = ''A'', previousScore = 50, newScore = 75, scoreIncrease = 25, rank = 1, timestamp = 3\<rparr>],
      scenario_world)"
  by (simp add: scenario_calls_def scenario_world_def eval_defs world_defs query_defs)

section \<open>Claims\<close>

subsection \<open>C1: the two inserts are not one unit\<close>

text \<open>
  C1 asks that the \<^verbatim>\<open>score_history\<close> row and the \<^verbatim>\<open>idempotency\<close> row are written as one
  unit. The code writes them with two statements and no transaction: when the store fails the
  second insert, the call is rejected with the first row kept and no idempotency row, and a
  retry with the same action id counts the action a second time (100 points for one quest).
\<close>

theorem updateScore_partial_write:
  "updateScore \<lparr>uuid = ''h1'', now = 1\<rparr> ''A'' ''e1'' ''quest'' failing_world =
     (Inl SqliteError,
      demo_world\<lparr>db := (db demo_world)
        \<lparr>score_history := [\<lparr>sh_id = ''h1'', sh_user_id = ''A'', sh_action_type = ''quest'',
                             sh_score_increase = 50, sh_timestamp = 1\<rparr>],
         idempotency := []\<rparr>\<rparr>)
   \<and> fst (updateScore \<lparr>uuid = ''h2'', now = 2\<rparr> ''A'' ''e1'' ''quest''
          (snd (updateScore \<lparr>uuid = ''h1'', now = 1\<rparr> ''A'' ''e1'' ''quest'' failing_world))) =
       Inr \<lparr>userId = ''A'', previousScore = 50, newScore = 100, scoreIncrease = 50, rank = 1,
            timestamp = 2\<rparr>"
proof -
  have first: "updateScore \<lparr>uuid = ''h1'', now = 1\<rparr> ''A'' ''e1'' ''quest'' failing_world =
     (Inl SqliteError,
      demo_world\<lparr>db := (db demo_world)
        \<lparr>score_history := [\<lparr>sh_id = ''h1'', sh_user_id = ''A'', sh_action_type = ''quest'',
                             sh_score_increase = 50, sh_timestamp = 1\<rparr>],
         idempotency := []\<rparr>\<rparr>)"
    by (simp add: eval_defs world_defs query_defs)
  show ?thesis
    unfolding first by (simp add: eval_defs world_defs query_defs)
qed

subsection \<open>C2: rank by position and rank by count\<close>

text \<open>
  C2, as stated, fails: with two users at 50 points each, \<^verbatim>\<open>getTop10\<close> lists B at rank 2
  while \<^verbatim>\<open>getUserRank\<close> answers 1 for B (no total is greater than B's).
\<close>

theorem tied_users_rank_differs:
  "fst (getTop10 \<lparr>uuid = ''h3'', now = 3\<rparr> tie_world) =
       Inr \<lparr>scores = [\<lparr>e_rank = 1, e_userId = ''A'', e_username = ''alice'', e_score = 50,
                        e_lastUpdated = Some 2\<rparr>,
                       \<lparr>e_rank = 2, e_userId = ''B'', e_username = ''bob'', e_score = 50,
                        e_lastUpdated = Some 1\<rparr>],
            cachedAt = None\<rparr>
   \<and> getUserRank ''B'' tie_world = (Inr 1, tie_world)
   \<and> getUserRank ''B'' (snd (getTop10 \<lparr>uuid = ''h3'', now = 3\<rparr> tie_world)) =
       (Inr 1, snd (getTop10 \<lparr>uuid = ''h3'', now = 3\<rparr> tie_world))"
  by (simp add: top10_eval_defs eval_defs world_defs query_defs)

text \<open>
  C2, amended. In a state with a healthy store and an empty, reachable cache, where user ids
  are unique, every \<^verbatim>\<open>score_history\<close> row belongs to a registered user and no increase is
  negative, \<^verbatim>\<open>getTop10\<close> returns, and for every listed entry: its rank is its position in
  the list; \<^verbatim>\<open>getUserRank\<close> of its user is 1 + the number of entries listed before it with
  a strictly greater score; and the two ranks are equal exactly when no entry listed before
  it has the same score.
\<close>

theorem top10_rank_and_user_rank:
  assumes h: "faults (db w) = []"
    and c: "client (cacheService w) = Some r" and up: "reachable r" and empty: "top10_key r = []"
    and pk: "distinct (map u_id (users (db w)))"
    and fk: "set (map sh_user_id (score_history (db w))) \<subseteq> set (map u_id (users (db w)))"
    and nonneg: "\<forall>row\<in>set (score_history (db w)). 0 \<le> sh_score_increase row"
  shows "\<exists>res w1. getTop10 e w = (Inr res, w1) \<and>
          (\<forall>i<length (scores res).
             e_rank (scores res ! i) = i + 1 \<and>
             getUserRank (e_userId (scores res ! i)) w1 =
               (Inr (1 + length (filter (\<lambda>x. e_score x > e_score (scores res ! i))
                                        (take i (scores res)))), w1) \<and>
             ((getUserRank (e_userId (scores res ! i)) w1 = (Inr (e_rank (scores res ! i)), w1)) =
              (\<forall>j<i. e_score (scores res ! j) \<noteq> e_score (scores res ! i))))"
proof -
  let ?rows = "order_by_totalScore_desc (map (grouped_user (db w)) (scan_users (db w)))"
  let ?w1 = "w\<lparr>cacheService := \<lparr>client = Some
             (r\<lparr>top10_key := zset_of (members_of_rows ?rows),
                top10_ttl := (if members_of_rows ?rows = [] then None else Some TTL)\<rparr>)\<rparr>\<rparr>"
  let ?res = "\<lparr>scores = entries_of_rows e ?rows, cachedAt = None\<rparr>"
  have run: "getTop10 e w = (Inr ?res, ?w1)"
    using getTop10_miss[OF h c up empty pk, of e] by (simp add: Let_def)
  have len: "length ?rows = length (users (db w))"
    by (simp add: order_by_totalScore_desc_def length_scan_users)
  have rank: "getUserRank u ?w1 = (Inr (rank_query (db w) u), ?w1)" for u
    using h getUserRank_healthy[of ?w1 u] by simp
  have each: "e_rank (scores ?res ! i) = i + 1 \<and>
             getUserRank (e_userId (scores ?res ! i)) ?w1 =
               (Inr (1 + length (filter (\<lambda>x. e_score x > e_score (scores ?res ! i))
                                        (take i (scores ?res)))), ?w1) \<and>
             ((getUserRank (e_userId (scores ?res ! i)) ?w1 = (Inr (e_rank (scores ?res ! i)), ?w1)) =
              (\<forall>j<i. e_score (scores ?res ! j) \<noteq> e_score (scores ?res ! i)))"
    if "i < length (scores ?res)" for i
  proof -
    from that have i: "i < length ?rows" "i < 10"
      by (simp_all add: length_entries_of_rows)
    have nth: "entries_of_rows e ?rows ! j =
       \<lparr>e_rank = j + 1, e_userId = uws_id (?rows ! j), e_username = uws_username (?rows ! j),
        e_score = uws_totalScore (?rows ! j),
        e_lastUpdated = (case uws_lastUpdated (?rows ! j) of None \<Rightarrow> Some (now e) | Some t \<Rightarrow> Some t)\<rparr>"
      if "j \<le> i" for j
      using that i by (intro entries_of_rows_nth) simp_all
    have pos: "rank_query (db w) (uws_id (?rows ! i)) =
         1 + length (filter (\<lambda>x. uws_totalScore x > uws_totalScore (?rows ! i)) (take i ?rows))"
      using rank_query_position[OF pk fk nonneg, of i] i len by simp
    have cnt: "length (filter (\<lambda>x. e_score x > uws_totalScore (?rows ! i)) (take i (entries_of_rows e ?rows))) =
         length (filter (\<lambda>x. uws_totalScore x > uws_totalScore (?rows ! i)) (take i ?rows))"
      using i by (intro count_above_entries) simp
    have ties: "(length (filter (\<lambda>x. uws_totalScore x > uws_totalScore (?rows ! i)) (take i ?rows)) = i) =
         (\<forall>j<i. uws_totalScore (?rows ! j) \<noteq> uws_totalScore (?rows ! i))"
      using rows_above_before[OF sorted_desc_rows, of i "map (grouped_user (db w)) (scan_users (db w))"] i
      by simp
    have scj: "e_score (entries_of_rows e ?rows ! j) = uws_totalScore (?rows ! j)" if "j \<le> i" for j
      using nth[OF that] by simp
    have sc: "(\<forall>j<i. e_score (entries_of_rows e ?rows ! j) \<noteq> e_score (entries_of_rows e ?rows ! i)) =
         (\<forall>j<i. uws_totalScore (?rows ! j) \<noteq> uws_totalScore (?rows ! i))"
      using scj by (simp add: less_imp_le)
    let ?es = "entries_of_rows e ?rows"
    let ?above = "length (filter (\<lambda>x. e_score x > e_score (?es ! i)) (take i ?es))"
    have A: "e_rank (?es ! i) = i + 1"
      using nth[of i] by simp
    have B: "getUserRank (e_userId (?es ! i)) ?w1 = (Inr (1 + ?above), ?w1)"
      using nth[of i] by (simp add: rank pos cnt)
    have "(?above = i) =
        (length (filter (\<lambda>x. e_score x > uws_totalScore (?rows ! i)) (take i ?es)) = i)"
      by (simp only: scj[OF order_refl])
    also have "\<dots> =
        (length (filter (\<lambda>x. uws_totalScore x > uws_totalScore (?rows ! i)) (take i ?rows)) = i)"
      by (simp only: cnt)
    also have "\<dots> = (\<forall>j<i. uws_totalScore (?rows ! j) \<noteq> uws_totalScore (?rows ! i))"
      by (rule ties)
    also have "\<dots> = (\<forall>j<i. e_score (?es ! j) \<noteq> e_score (?es ! i))"
      by (rule sc[symmetric])
    finally have L: "(?above = i) = (\<forall>j<i. e_score (?es ! j) \<noteq> e_score (?es ! i))" .
    have C: "(getUserRank (e_userId (?es ! i)) ?w1 = (Inr (e_rank (?es ! i)), ?w1)) =
        (\<forall>j<i. e_score (?es ! j) \<noteq> e_score (?es ! i))"
      unfolding B A L[symmetric] by simp
    from A B C show ?thesis by simp
  qed
  show ?thesis
    using run each by blast
qed

text \<open>
  C2, amended, on a tie (both ranks of A are 1, B is listed second and has user rank 1) and
  without a tie (A: 1 and 1, B: 2 and 2).
\<close>

theorem top10_rank_and_user_rank_witness:
  "faults (db tie_world) = [] \<and> client (cacheService tie_world) = Some redis_up
   \<and> reachable redis_up \<and> top10_key redis_up = []
   \<and> distinct (map u_id (users (db tie_world)))
   \<and> set (map sh_user_id (score_history (db tie_world))) \<subseteq> set (map u_id (users (db tie_world)))
   \<and> list_all (\<lambda>row. 0 \<le> sh_score_increase row) (score_history (db tie_world))
   \<and> (\<exists>res w1. getTop10 \<lparr>uuid = ''h3'', now = 3\<rparr> tie_world = (Inr res, w1)
        \<and> map listed (scores res) = [(1, ''A'', ''alice'', 50), (2, ''B'', ''bob'', 50)]
        \<and> getUserRank ''A'' w1 = (Inr 1, w1) \<and> getUserRank ''B'' w1 = (Inr 1, w1))
   \<and> (\<exists>res w1. getTop10 \<lparr>uuid = ''h3'', now = 3\<rparr> replay_world = (Inr res, w1)
        \<and> map listed (scores res) = [(1, ''A'', ''alice'', 50), (2, ''B'', ''bob'', 0)]
        \<and> getUserRank ''A'' w1 = (Inr 1, w1) \<and> getUserRank ''B'' w1 = (Inr 2, w1))"
proof -
  have h: "faults (db tie_world) = []" and c: "client (cacheService tie_world) = Some redis_up"
    and up: "reachable redis_up" and k: "top10_key redis_up = []"
    and pk: "distinct (map u_id (users (db tie_world)))"
    and fk: "set (map sh_user_id (score_history (db tie_world))) \<subseteq> set (map u_id (users (db tie_world)))"
    and nn: "\<forall>row\<in>set (score_history (db tie_world)). 0 \<le> sh_score_increase row"
    by (simp_all add: world_defs)
  have h': "faults (db replay_world) = []" and c': "client (cacheService replay_world) = Some redis_up"
    and pk': "distinct (map u_id (users (db replay_world)))"
    and fk': "set (map sh_user_id (score_history (db replay_world))) \<subseteq> set (map u_id (users (db replay_world)))"
    and nn': "\<forall>row\<in>set (score_history (db replay_world)). 0 \<le> sh_score_increase row"
    by (simp_all add: world_defs)
  have run: "scores (projr (fst (getTop10 \<lparr>uuid = ''h3'', now = 3\<rparr> tie_world))) =
       [\<lparr>e_rank = 1, e_userId = ''A'', e_username = ''alice'', e_score = 50, e_lastUpdated = Some 2\<rparr>,
        \<lparr>e_rank = 2, e_userId = ''B'', e_username = ''bob'', e_score = 50, e_lastUpdated = Some 1\<rparr>]"
    by (simp add: top10_eval_defs eval_defs world_defs query_defs)
  have run': "scores (projr (fst (getTop10 \<lparr>uuid = ''h3'', now = 3\<rparr> replay_world))) =
       [\<lparr>e_rank = 1, e_userId = ''A'', e_username = ''alice'', e_score = 50, e_lastUpdated = Some 1\<rparr>,
        \<lparr>e_rank = 2, e_userId = ''B'', e_username = ''bob'', e_score = 0, e_lastUpdated = Some 3\<rparr>]"
    by (simp add: top10_eval_defs eval_defs world_defs query_defs)
  from top10_rank_and_user_rank[OF h c up k pk fk nn, of "\<lparr>uuid = ''h3'', now = 3\<rparr>"]
  obtain res w1 where g: "getTop10 \<lparr>uuid = ''h3'', now = 3\<rparr> tie_world = (Inr res, w1)"
    and each: "\<forall>i<length (scores res).
             e_rank (scores res ! i) = i + 1 \<and>
             getUserRank (e_userId (scores res ! i)) w1 =
               (Inr (1 + length (filter (\<lambda>x. e_score x > e_score (scores res ! i))
                                        (take i (scores res)))), w1) \<and>
             ((getUserRank (e_userId (scores res ! i)) w1 = (Inr (e_rank (scores res ! i)), w1)) =
              (\<forall>j<i. e_score (scores res ! j) \<noteq> e_score (scores res ! i)))"
    by blast
  from run g have s: "scores res =
       [\<lparr>e_rank = 1, e_userId = ''A'', e_username = ''alice'', e_score = 50, e_lastUpdated = Some 2\<rparr>,
        \<lparr>e_rank = 2, e_userId = ''B'', e_username = ''bob'', e_score = 50, e_lastUpdated = Some 1\<rparr>]"
    by simp
  from each[rule_format, of 0] each[rule_format, of 1] s
  have a: "getUserRank ''A'' w1 = (Inr 1, w1)" and b: "getUserRank ''B'' w1 = (Inr 1, w1)"
    by simp_all
  from top10_rank_and_user_rank[OF h' c' up k pk' fk' nn', of "\<lparr>uuid = ''h3'', now = 3\<rparr>"]
  obtain res' w1' where g': "getTop10 \<lparr>uuid = ''h3'', now = 3\<rparr> replay_world = (Inr res', w1')"
    and each': "\<forall>i<length (scores res').
             e_rank (scores res' ! i) = i + 1 \<and>
             getUserRank (e_userId (scores res' ! i)) w1' =
               (Inr (1 + length (filter (\<lambda>x. e_score x > e_score (scores res' ! i))
                                        (take i (scores res')))), w1') \<and>
             ((getUserRank (e_userId (scores res' ! i)) w1' = (Inr (e_rank (scores res' ! i)), w1')) =
              (\<forall>j<i. e_score (scores res' ! j) \<noteq> e_score (scores res' ! i)))"
    by blast
  from run' g' have s': "scores res' =
       [\<lparr>e_rank = 1, e_userId = ''A'', e_username = ''alice'', e_score = 50, e_lastUpdated = Some 1\<rparr>,
        \<lparr>e_rank = 2, e_userId = ''B'', e_username = ''bob'', e_score = 0, e_lastUpdated = Some 3\<rparr>]"
    by simp
  from each'[rule_format, of 0] each'[rule_format, of 1] s'
  have a': "getUserRank ''A'' w1' = (Inr 1, w1')" and b': "getUserRank ''B'' w1' = (Inr 2, w1')"
    by simp_all
  have first: "\<exists>res w1. getTop10 \<lparr>uuid = ''h3'', now = 3\<rparr> tie_world = (Inr res, w1)
        \<and> map listed (scores res) = [(1, ''A'', ''alice'', 50), (2, ''B'', ''bob'', 50)]
        \<and> getUserRank ''A'' w1 = (Inr 1, w1) \<and> getUserRank ''B'' w1 = (Inr 1, w1)"
    using g s a b by (intro exI[of _ res] exI[of _ w1]) (simp add: listed_def)
  have second: "\<exists>res w1. getTop10 \<lparr>uuid = ''h3'', now = 3\<rparr> replay_world = (Inr res, w1)
        \<and> map listed (scores res) = [(1, ''A'', ''alice'', 50), (2, ''B'', ''bob'', 0)]
        \<and> getUserRank ''A'' w1 = (Inr 1, w1) \<and> getUserRank ''B'' w1 = (Inr 2, w1)"
    using g' s' a' b' by (intro exI[of _ res'] exI[of _ w1']) (simp add: listed_def)
  from h c up k pk fk nn first second show ?thesis
    by (simp add: list_all_iff)
qed

subsection \<open>C3: an unavailable cache\<close>

text \<open>
  C3, as stated, fails: without a Redis client, \<^verbatim>\<open>getTop10\<close> is rejected with
  \<^verbatim>\<open>Redis not connected\<close>, although the same store read through a reachable, empty cache
  yields the two entries.
\<close>

theorem getTop10_fails_without_cache:
  "\<not> cache_available cacheless_world \<and> db cacheless_world = db replay_world
   \<and> getTop10 \<lparr>uuid = ''h2'', now = 2\<rparr> cacheless_world = (Inl RedisNotConnected, cacheless_world)
   \<and> fst (getTop10 \<lparr>uuid = ''h2'', now = 2\<rparr> replay_world) =
       Inr \<lparr>scores = [\<lparr>e_rank = 1, e_userId = ''A'', e_username = ''alice'', e_score = 50,
                        e_lastUpdated = Some 1\<rparr>,
                       \<lparr>e_rank = 2, e_userId = ''B'', e_username = ''bob'', e_score = 0,
                        e_lastUpdated = Some 2\<rparr>],
            cachedAt = None\<rparr>"
  by (simp add: top10_eval_defs cache_available_def eval_defs world_defs query_defs)

text \<open>
  C3, amended. Whenever the cache is unavailable (no client, or the server unreachable),
  \<^verbatim>\<open>getTop10\<close> is rejected with the cache's error, nothing is read from the store, the
  state is unchanged, and the route \<^verbatim>\<open>GET /api/scores/top10\<close> answers with its failure
  message.
\<close>

theorem getTop10_cache_unavailable:
  assumes "\<not> cache_available w"
  shows "getTop10 e w =
           (Inl (if client (cacheService w) = None then RedisNotConnected else RedisError), w)
       \<and> get_scores_top10 e w = (Inl ''Failed to fetch top 10 scores'', w)"
  using getTop10_cache_down[OF assms] by (simp add: get_scores_top10_def)

text \<open>
  C3, amended, without a client and with an unreachable server.
\<close>

theorem getTop10_cache_unavailable_witness:
  "\<not> cache_available cacheless_world
   \<and> getTop10 \<lparr>uuid = ''h2'', now = 2\<rparr> cacheless_world = (Inl RedisNotConnected, cacheless_world)
   \<and> get_scores_top10 \<lparr>uuid = ''h2'', now = 2\<rparr> cacheless_world =
       (Inl ''Failed to fetch top 10 scores'', cacheless_world)
   \<and> \<not> cache_available unreachable_world
   \<and> getTop10 \<lparr>uuid = ''h2'', now = 2\<rparr> unreachable_world = (Inl RedisError, unreachable_world)"
proof -
  have a: "\<not> cache_available cacheless_world" and b: "\<not> cache_available unreachable_world"
    by (simp_all add: cache_available_def unreachable_world_def world_defs)
  have c: "client (cacheService cacheless_world) = None"
    "client (cacheService unreachable_world) \<noteq> None"
    by (simp_all add: unreachable_world_def world_defs)
  from getTop10_cache_unavailable[OF a, of "\<lparr>uuid = ''h2'', now = 2\<rparr>"]
    getTop10_cache_unavailable[OF b, of "\<lparr>uuid = ''h2'', now = 2\<rparr>"] a b c
  show ?thesis by simp
qed

subsection \<open>C4: replays\<close>

text \<open>
  C4 asks that after two sequential calls with the same action id the store holds exactly one
  \<^verbatim>\<open>score_history\<close> row for that id, both calls returning the same new score and rank. The
  replay branch itself writes nothing (\<open>updateScore_replay\<close>), but an id is only recognised once
  its \<^verbatim>\<open>idempotency\<close> row exists, and that row is written by a statement of its own after
  the \<^verbatim>\<open>score_history\<close> row. A's first attempt with \<^verbatim>\<open>e1\<close> fails between the two inserts;
  of the two calls with \<^verbatim>\<open>e1\<close> that follow, the first is processed as new and the second is
  a replay: both return new score 100 and rank 1, and the store holds two rows written for
  \<^verbatim>\<open>e1\<close>, 100 points for one quest.
\<close>

theorem updateScore_same_id_counted_twice:
  "updateScore \<lparr>uuid = ''h1'', now = 1\<rparr> ''A'' ''e1'' ''quest'' failing_world =
     (Inl SqliteError, half_written_world)
   \<and> updateScore \<lparr>uuid = ''h2'', now = 2\<rparr> ''A'' ''e1'' ''quest'' half_written_world =
     (Inr \<lparr>userId = ''A'', previousScore = 50, newScore = 100, scoreIncrease = 50, rank = 1,
           timestamp = 2\<rparr>, counted_twice_world)
   \<and> updateScore \<lparr>uuid = ''h3'', now = 3\<rparr> ''A'' ''e1'' ''quest'' counted_twice_world =
     (Inr \<lparr>userId = ''A'', previousScore = 100, newScore = 100, scoreIncrease = 0, rank = 1,
           timestamp = 3\<rparr>, counted_twice_world)
   \<and> score_history (db counted_twice_world) =
     [\<lparr>sh_id = ''h1'', sh_user_id = ''A'', sh_action_type = ''quest'', sh_score_increase = 50,
       sh_timestamp = 1\<rparr>,
      \<lparr>sh_id = ''h2'', sh_user_id = ''A'', sh_action_type = ''quest'', sh_score_increase = 50,
       sh_timestamp = 2\<rparr>]
   \<and> idempotency (db counted_twice_world) =
     [\<lparr>idem_action_id = ''e1'', idem_user_id = ''A'', idem_timestamp = 2\<rparr>]"
proof (intro conjI)
  show "updateScore \<lparr>uuid = ''h1'', now = 1\<rparr> ''A'' ''e1'' ''quest'' failing_world =
     (Inl SqliteError, half_written_world)"
    by (simp add: eval_defs world_defs query_defs)
  show "updateScore \<lparr>uuid = ''h2'', now = 2\<rparr> ''A'' ''e1'' ''quest'' half_written_world =
     (Inr \<lparr>userId = ''A'', previousScore = 50, newScore = 100, scoreIncrease = 50, rank = 1,
           timestamp = 2\<rparr>, counted_twice_world)"
    by (simp add: eval_defs world_defs query_defs)
  show "updateScore \<lparr>uuid = ''h3'', now = 3\<rparr> ''A'' ''e1'' ''quest'' counted_twice_world =
     (Inr \<lparr>userId = ''A'', previousScore = 100, newScore = 100, scoreIncrease = 0, rank = 1,
           timestamp = 3\<rparr>, counted_twice_world)"
    by (simp add: eval_defs world_defs query_defs)
qed (simp_all add: world_defs)

subsection \<open>C5: unknown action types\<close>

text \<open>
  C5, as stated, fails: an action type missing from \<^verbatim>\<open>actions\<close> is not rejected when
  the action id was already processed; the replay branch answers first, with a success.
\<close>

theorem unknown_action_replayed_succeeds:
  "select_action (db replay_world) ''bogus'' = None
   \<and> updateScore \<lparr>uuid = ''h2'', now = 2\<rparr> ''A'' ''e1'' ''bogus'' replay_world =
       (Inr \<lparr>userId = ''A'', previousScore = 50, newScore = 50, scoreIncrease = 0, rank = 1,
             timestamp = 2\<rparr>, replay_world)"
proof -
  have h: "faults (db replay_world) = []" by (simp add: world_defs)
  have p: "select_idempotency (db replay_world) ''e1'' \<noteq> None"
    by (simp add: world_defs query_defs)
  show ?thesis
    by (simp add: updateScore_replay[OF h p]) (simp add: world_defs query_defs)
qed

text \<open>
  C5, amended. With a healthy store and an action type that has no row in \<^verbatim>\<open>actions\<close>:
  when the action id has not been processed, \<^verbatim>\<open>updateScore\<close> throws
  \<^verbatim>\<open>Invalid action type\<close>, the state is unchanged, and the route answers 400 for a known
  user; when the action id has been processed, the call is answered as a replay.
\<close>

theorem updateScore_unknown_action:
  assumes "faults (db w) = []" and "select_action (db w) actionType = None"
  shows "(select_idempotency (db w) actionId = None \<longrightarrow>
            updateScore e ident actionId actionType w = (Inl (InvalidActionType actionType), w)
            \<and> (select_user (db w) ident \<noteq> None \<and> ident \<noteq> [] \<and> actionId \<noteq> []
                 \<and> actionType \<noteq> [] \<longrightarrow>
                 post_scores_update e
                   \<lparr>req_userId = Some ident, req_actionId = Text actionId,
                    req_actionType = Text actionType\<rparr> w =
                 (InvalidActionType400 actionType, w)))
       \<and> (select_idempotency (db w) actionId \<noteq> None \<longrightarrow>
            updateScore e ident actionId actionType w =
              (Inr \<lparr>userId = ident, previousScore = sum_score_increase (db w) ident,
                    newScore = sum_score_increase (db w) ident, scoreIncrease = 0,
                    rank = rank_query (db w) ident, timestamp = now e\<rparr>, w))"
proof (intro conjI impI)
  assume np: "select_idempotency (db w) actionId = None"
  with assms show rej: "updateScore e ident actionId actionType w =
      (Inl (InvalidActionType actionType), w)"
    by (simp add: updateScore_rejected)
  assume "select_user (db w) ident \<noteq> None \<and> ident \<noteq> [] \<and> actionId \<noteq> [] \<and> actionType \<noteq> []"
  then show "post_scores_update e
      \<lparr>req_userId = Some ident, req_actionId = Text actionId, req_actionType = Text actionType\<rparr> w =
      (InvalidActionType400 actionType, w)"
    using assms(1) rej
    by (auto simp: post_scores_update_def not_field_def getUserById_healthy catch_update_def
        message_includes_invalid_action_type_def)
next
  assume "select_idempotency (db w) actionId \<noteq> None"
  with assms show "updateScore e ident actionId actionType w =
      (Inr \<lparr>userId = ident, previousScore = sum_score_increase (db w) ident,
            newScore = sum_score_increase (db w) ident, scoreIncrease = 0,
            rank = rank_query (db w) ident, timestamp = now e\<rparr>, w)"
    by (simp add: updateScore_replay)
qed

text \<open>
  C5, amended, for the action type \<^verbatim>\<open>bogus\<close>: rejected with the new id \<^verbatim>\<open>e2\<close>, answered
  as a replay with the processed id \<^verbatim>\<open>e1\<close>.
\<close>

theorem updateScore_unknown_action_witness:
  "faults (db replay_world) = [] \<and> select_action (db replay_world) ''bogus'' = None
   \<and> select_idempotency (db replay_world) ''e2'' = None
   \<and> select_user (db replay_world) ''A'' \<noteq> None \<and> ''A'' \<noteq> [] \<and> ''e2'' \<noteq> [] \<and> ''bogus'' \<noteq> []
   \<and> updateScore \<lparr>uuid = ''h2'', now = 2\<rparr> ''A'' ''e2'' ''bogus'' replay_world =
       (Inl (InvalidActionType ''bogus''), replay_world)
   \<and> post_scores_update \<lparr>uuid = ''h2'', now = 2\<rparr>
       \<lparr>req_userId = Some ''A'', req_actionId = Text ''e2'', req_actionType = Text ''bogus''\<rparr>
       replay_world = (InvalidActionType400 ''bogus'', replay_world)
   \<and> select_idempotency (db replay_world) ''e1'' \<noteq> None
   \<and> updateScore \<lparr>uuid = ''h2'', now = 2\<rparr> ''A'' ''e1'' ''bogus'' replay_world =
       (Inr \<lparr>userId = ''A'', previousScore = sum_score_increase (db replay_world) ''A'',
             newScore = sum_score_increase (db replay_world) ''A'', scoreIncrease = 0,
             rank = rank_query (db replay_world) ''A'', timestamp = 2\<rparr>, replay_world)"
proof -
  have h: "faults (db replay_world) = []" by (simp add: world_defs)
  have a: "select_action (db replay_world) ''bogus'' = None" by (simp add: world_defs query_defs)
  have p2: "select_idempotency (db replay_world) ''e2'' = None"
    and p1: "select_idempotency (db replay_world) ''e1'' \<noteq> None"
    and u: "select_user (db replay_world) ''A'' \<noteq> None \<and> ''A'' \<noteq> [] \<and> ''e2'' \<noteq> []
      \<and> ''bogus'' \<noteq> []"
    by (simp_all add: world_defs query_defs)
  note t2 = updateScore_unknown_action[OF h a, where actionId = "''e2''" and ident = "''A''"
      and e = "\<lparr>uuid = ''h2'', now = 2\<rparr>", THEN conjunct1, rule_format, OF p2]
  note t1 = updateScore_unknown_action[OF h a, where actionId = "''e1''" and ident = "''A''"
      and e = "\<lparr>uuid = ''h2'', now = 2\<rparr>", THEN conjunct2, rule_format, OF p1]
  from t2[THEN conjunct1] t2[THEN conjunct2, rule_format, OF u] t1 h a p2 p1 u
  show ?thesis by simp
qed

subsection \<open>C6: the score is the sum over the log\<close>

text \<open>
  C6. In every state with a healthy store, \<^verbatim>\<open>getUserScoreAndRank\<close> returns as score the sum
  of \<^verbatim>\<open>score_increase\<close> over the user's rows of \<^verbatim>\<open>score_history\<close>, which is 0 for a user
  without rows; and after any sequence of calls of \<^verbatim>\<open>updateScore\<close> that all returned, that
  sum is the user's total before the calls plus the increases the calls reported for the
  user. No table has a score column: the score is read from the log alone.
\<close>

theorem getUserScoreAndRank_score_is_sum:
  assumes "faults (db w) = []"
  shows "getUserScoreAndRank u w =
           (Inr \<lparr>sr_score = sum_list (map sh_score_increase
                    (filter (\<lambda>r. sh_user_id r = u) (score_history (db w)))),
                 sr_rank = rank_query (db w) u\<rparr>, w)
       \<and> (filter (\<lambda>r. sh_user_id r = u) (score_history (db w)) = [] \<longrightarrow>
            getUserScoreAndRank u w = (Inr \<lparr>sr_score = 0, sr_rank = rank_query (db w) u\<rparr>, w))
       \<and> (\<forall>calls results w1. apply_events calls w = (Inr results, w1) \<longrightarrow>
            getUserScoreAndRank u w1 =
              (Inr \<lparr>sr_score = sum_list (map sh_score_increase
                       (filter (\<lambda>r. sh_user_id r = u) (score_history (db w1)))),
                    sr_rank = rank_query (db w1) u\<rparr>, w1)
            \<and> sum_list (map sh_score_increase
                 (filter (\<lambda>r. sh_user_id r = u) (score_history (db w1)))) =
               sum_list (map sh_score_increase
                 (filter (\<lambda>r. sh_user_id r = u) (score_history (db w))))
               + sum_list (map scoreIncrease (filter (\<lambda>r. userId r = u) results)))"
proof -
  have g: "getUserScoreAndRank u v =
      (Inr \<lparr>sr_score = sum_list (map sh_score_increase
               (filter (\<lambda>r. sh_user_id r = u) (score_history (db v)))),
            sr_rank = rank_query (db v) u\<rparr>, v)"
    if "faults (db v) = []" for v
    using that
    by (simp add: getUserScoreAndRank_def await_def resolve_def healthy_simps
        sum_score_increase_def)
  show ?thesis
  proof (intro conjI impI allI)
    show "getUserScoreAndRank u w =
           (Inr \<lparr>sr_score = sum_list (map sh_score_increase
                    (filter (\<lambda>r. sh_user_id r = u) (score_history (db w)))),
                 sr_rank = rank_query (db w) u\<rparr>, w)"
      using assms by (rule g)
  next
    assume "filter (\<lambda>r. sh_user_id r = u) (score_history (db w)) = []"
    then show "getUserScoreAndRank u w = (Inr \<lparr>sr_score = 0, sr_rank = rank_query (db w) u\<rparr>, w)"
      using g[OF assms] by simp
  next
    fix calls results w1
    assume run: "apply_events calls w = (Inr results, w1)"
    from apply_events_totals[OF assms run, of u]
    show "getUserScoreAndRank u w1 =
              (Inr \<lparr>sr_score = sum_list (map sh_score_increase
                       (filter (\<lambda>r. sh_user_id r = u) (score_history (db w1)))),
                    sr_rank = rank_query (db w1) u\<rparr>, w1)"
      by (simp add: g)
  next
    fix calls results w1
    assume run: "apply_events calls w = (Inr results, w1)"
    from apply_events_totals[OF assms run, of u]
    show "sum_list (map sh_score_increase
                 (filter (\<lambda>r. sh_user_id r = u) (score_history (db w1)))) =
               sum_list (map sh_score_increase
                 (filter (\<lambda>r. sh_user_id r = u) (score_history (db w))))
               + sum_list (map scoreIncrease (filter (\<lambda>r. userId r = u) results))"
      by (simp add: sum_score_increase_def)
  qed
qed

text \<open>
  C6 in the spec's scenario: 50, a replay, then 25 give A the score 75; B has no row and
  the score 0.
\<close>

theorem getUserScoreAndRank_score_is_sum_witness:
  "faults (db demo_world) = []
   \<and> filter (\<lambda>r. sh_user_id r = ''B'') (score_history (db demo_world)) = []
   \<and> getUserScoreAndRank ''B'' demo_world = (Inr \<lparr>sr_score = 0, sr_rank = 1\<rparr>, demo_world)
   \<and> apply_events scenario_calls demo_world =
     (Inr [\<lparr>userId = ''A'', previousScore = 0, newScore = 50, scoreIncrease = 50, rank = 1, timestamp = 1\<rparr>,
           \<lparr>userId = ''A'', previousScore = 50, newScore = 50, scoreIncrease = 0, rank = 1, timestamp = 2\<rparr>,
           \<lparr>userId = ''A'', previousScore = 50, newScore = 75, scoreIncrease = 25, rank = 1, timestamp = 3\<rparr>],
      scenario_world)
   \<and> getUserScoreAndRank ''A'' scenario_world = (Inr \<lparr>sr_score = 75, sr_rank = 1\<rparr>, scenario_world)
   \<and> getUserScoreAndRank ''B'' scenario_world = (Inr \<lparr>sr_score = 0, sr_rank = 2\<rparr>, scenario_world)"
proof -
  have h: "faults (db demo_world) = []" by (simp add: world_defs)
  have n: "filter (\<lambda>r. sh_user_id r = ''B'') (score_history (db demo_world)) = []"
    by (simp add: world_defs)
  have v: "rank_query (db demo_world) ''B'' = 1"
    "sum_list (map sh_score_increase
       (filter (\<lambda>r. sh_user_id r = ''A'') (score_history (db scenario_world)))) = 75"
    "sum_list (map sh_score_increase
       (filter (\<lambda>r. sh_user_id r = ''B'') (score_history (db scenario_world)))) = 0"
    "rank_query (db scenario_world) ''A'' = 1" "rank_query (db scenario_world) ''B'' = 2"
    by (simp_all add: scenario_world_def world_defs query_defs)
  note b0 = getUserScoreAndRank_score_is_sum[OF h, of "''B''", THEN conjunct2, THEN conjunct1,
      rule_format, OF n]
  note a = getUserScoreAndRank_score_is_sum[OF h, of "''A''", THEN conjunct2, THEN conjunct2,
      rule_format, OF scenario_run, THEN conjunct1]
  note b = getUserScoreAndRank_score_is_sum[OF h, of "''B''", THEN conjunct2, THEN conjunct2,
      rule_format, OF scenario_run, THEN conjunct1]
  from b0 a b h n v scenario_run show ?thesis by simp
qed

subsection \<open>C7: ties\<close>



text \<open>
  C7, amended, on the tie: the listing A, B is returned by the first call, by a second call,
  after the key expired, and when B's and A's instants are exchanged.
\<close>


subsection \<open>C8: notifications\<close>

text \<open>
  C8 asks for one \<^verbatim>\<open>score_updated\<close> message per accepted update. The handler of
  \<^verbatim>\<open>POST /api/scores/update\<close> never calls \<^verbatim>\<open>broadcastScoreUpdate\<close>: an accepted update
  answers 200 and the room has received nothing; no request makes the handler emit.
\<close>

theorem post_scores_update_never_broadcasts:
  "post_scores_update \<lparr>uuid = ''h1'', now = 1\<rparr>
     \<lparr>req_userId = Some ''A'', req_actionId = Text ''e1'', req_actionType = Text ''quest''\<rparr>
     demo_world =
     (Ok200 \<lparr>userId = ''A'', previousScore = 0, newScore = 50, scoreIncrease = 50, rank = 1,
             timestamp = 1\<rparr>, replay_world)
   \<and> scoreboard_room replay_world = []
   \<and> scoreboard_room (snd (post_scores_update e req w)) = scoreboard_room w"
proof -
  have "post_scores_update \<lparr>uuid = ''h1'', now = 1\<rparr>
     \<lparr>req_userId = Some ''A'', req_actionId = Text ''e1'', req_actionType = Text ''quest''\<rparr>
     demo_world =
     (Ok200 \<lparr>userId = ''A'', previousScore = 0, newScore = 50, scoreIncrease = 50, rank = 1,
             timestamp = 1\<rparr>, replay_world)"
    by (simp add: post_scores_update_def not_field_def eval_defs world_defs query_defs)
  moreover have "scoreboard_room replay_world = []"
    by (simp add: world_defs)
  ultimately show ?thesis
    by (simp add: post_scores_update_silent)
qed

subsection \<open>C9: the idempotency check ignores the user\<close>

text \<open>
  C9. The idempotency check looks at the action id alone. With a healthy store, if the id was
  recorded for user A, a call by another user B with that id records nothing (the state is
  unchanged) and returns B's own total as previous and new score with an increase of 0: a
  success, not an error.
\<close>

theorem updateScore_replay_ignores_user:
  assumes "faults (db w) = []"
    and "select_idempotency (db w) actionId = Some claim"
    and "idem_user_id claim = userA" and "userB \<noteq> userA"
  shows "updateScore e userB actionId actionType w =
           (Inr \<lparr>userId = userB, previousScore = sum_score_increase (db w) userB,
                 newScore = sum_score_increase (db w) userB, scoreIncrease = 0,
                 rank = rank_query (db w) userB, timestamp = now e\<rparr>, w)"
  using assms by (simp add: updateScore_replay)

text \<open>
  C9 for B sending A's \<^verbatim>\<open>e1\<close>: B is answered with its own total 0 and rank 2.
\<close>

theorem updateScore_replay_ignores_user_witness:
  "faults (db replay_world) = []
   \<and> select_idempotency (db replay_world) ''e1'' =
       Some \<lparr>idem_action_id = ''e1'', idem_user_id = ''A'', idem_timestamp = 1\<rparr>
   \<and> ''B'' \<noteq> ''A''
   \<and> updateScore \<lparr>uuid = ''h2'', now = 2\<rparr> ''B'' ''e1'' ''quest'' replay_world =
       (Inr \<lparr>userId = ''B'', previousScore = 0, newScore = 0, scoreIncrease = 0, rank = 2,
             timestamp = 2\<rparr>, replay_world)"
proof -
  have h: "faults (db replay_world) = []" by (simp add: world_defs)
  have p: "select_idempotency (db replay_world) ''e1'' =
       Some \<lparr>idem_action_id = ''e1'', idem_user_id = ''A'', idem_timestamp = 1\<rparr>"
    by (simp add: world_defs query_defs)
  have c: "sum_score_increase (db replay_world) ''B'' = 0" "rank_query (db replay_world) ''B'' = 2"
    by (simp_all add: world_defs query_defs)
  from updateScore_replay_ignores_user[OF h p, of "''A''" "''B''" "\<lparr>uuid = ''h2'', now = 2\<rparr>" "''quest''"]
  show ?thesis using h p c by simp
qed

subsection \<open>C10: zero-valued action types\<close>

text \<open>
  C10, as stated, fails: a call with a zero-valued action type does not fail when its action
  id was already processed; it is answered as a replay.
\<close>

theorem zero_valued_action_replayed_succeeds:
  "select_action (db replay_world) ''free'' =
     Some \<lparr>act_id = ''free'', act_action_type = ''free'', act_score_value = 0, act_created_at = 0\<rparr>
   \<and> updateScore \<lparr>uuid = ''h2'', now = 2\<rparr> ''A'' ''e1'' ''free'' replay_world =
       (Inr \<lparr>userId = ''A'', previousScore = 50, newScore = 50, scoreIncrease = 0, rank = 1,
             timestamp = 2\<rparr>, replay_world)"
proof -
  have h: "faults (db replay_world) = []" by (simp add: world_defs)
  have p: "select_idempotency (db replay_world) ''e1'' \<noteq> None"
    by (simp add: world_defs query_defs)
  show ?thesis
    by (simp add: updateScore_replay[OF h p]) (simp add: world_defs query_defs)
qed

text \<open>
  C10, amended. With a healthy store, an action type whose row in \<^verbatim>\<open>actions\<close> has
  \<^verbatim>\<open>score_value\<close> 0 is treated exactly like a missing one: \<^verbatim>\<open>getActionScoreValue\<close>
  resolves to \<^verbatim>\<open>null\<close> for both; a call whose action id has not been processed throws
  \<^verbatim>\<open>Invalid action type\<close> and leaves the state unchanged; a call whose action id has been
  processed is answered as a replay.
\<close>

theorem updateScore_zero_valued_action:
  assumes "faults (db w) = []"
    and "select_action (db w) actionType = Some row" and "act_score_value row = 0"
  shows "on_db (getActionScoreValue actionType) w = (Inr None, w)
       \<and> (\<forall>unknown. select_action (db w) unknown = None \<longrightarrow>
             on_db (getActionScoreValue unknown) w = (Inr None, w))
       \<and> (select_idempotency (db w) actionId = None \<longrightarrow>
            updateScore e ident actionId actionType w = (Inl (InvalidActionType actionType), w))
       \<and> (select_idempotency (db w) actionId \<noteq> None \<longrightarrow>
            updateScore e ident actionId actionType w =
              (Inr \<lparr>userId = ident, previousScore = sum_score_increase (db w) ident,
                    newScore = sum_score_increase (db w) ident, scoreIncrease = 0,
                    rank = rank_query (db w) ident, timestamp = now e\<rparr>, w))"
  using assms
  by (simp add: getActionScoreValue_healthy updateScore_rejected updateScore_replay)

text \<open>
  C10, amended, for the action type \<^verbatim>\<open>free\<close>, whose value is 0, next to the missing
  \<^verbatim>\<open>bogus\<close>.
\<close>

theorem updateScore_zero_valued_action_witness:
  "faults (db replay_world) = []
   \<and> select_action (db replay_world) ''free'' =
       Some \<lparr>act_id = ''free'', act_action_type = ''free'', act_score_value = 0, act_created_at = 0\<rparr>
   \<and> select_action (db replay_world) ''bogus'' = None
   \<and> on_db (getActionScoreValue ''free'') replay_world = (Inr None, replay_world)
   \<and> on_db (getActionScoreValue ''bogus'') replay_world = (Inr None, replay_world)
   \<and> select_idempotency (db replay_world) ''e2'' = None
   \<and> updateScore \<lparr>uuid = ''h2'', now = 2\<rparr> ''A'' ''e2'' ''free'' replay_world =
       (Inl (InvalidActionType ''free''), replay_world)
   \<and> select_idempotency (db replay_world) ''e1'' \<noteq> None
   \<and> updateScore \<lparr>uuid = ''h2'', now = 2\<rparr> ''A'' ''e1'' ''free'' replay_world =
       (Inr \<lparr>userId = ''A'', previousScore = sum_score_increase (db replay_world) ''A'',
             newScore = sum_score_increase (db replay_world) ''A'', scoreIncrease = 0,
             rank = rank_query (db replay_world) ''A'', timestamp = 2\<rparr>, replay_world)"
proof -
  have h: "faults (db replay_world) = []" by (simp add: world_defs)
  have a: "select_action (db replay_world) ''free'' =
       Some \<lparr>act_id = ''free'', act_action_type = ''free'', act_score_value = 0, act_created_at = 0\<rparr>"
    and b: "select_action (db replay_world) ''bogus'' = None"
    and p2: "select_idempotency (db replay_world) ''e2'' = None"
    and p1: "select_idempotency (db replay_world) ''e1'' \<noteq> None"
    by (simp_all add: world_defs query_defs)
  note t2 = updateScore_zero_valued_action[OF h a, where actionId = "''e2''" and ident = "''A''"
      and e = "\<lparr>uuid = ''h2'', now = 2\<rparr>"]
  note t1 = updateScore_zero_valued_action[OF h a, where actionId = "''e1''" and ident = "''A''"
      and e = "\<lparr>uuid = ''h2'', now = 2\<rparr>"]
  from t2 t1 h a b p2 p1 show ?thesis by simp
qed

end
